theory Spec2Isabelle
  imports Main "HOL-Library.Word" "HOL-Library.AList"
begin

section \<open>The YOLO oriented-box extractor\<close>

text \<open>
  A shallow embedding of \<^verbatim>\<open>datumaro/plugins/yolo_orientedbox_format/extractor.py\<close>.
  Python exceptions are values of \<open>exn\<close>; a function that may raise returns
  \<open>exn + 'a\<close> with \<open>Inl\<close> for the exception. Mutable state (the subsets' item tables,
  the error policy's reports, the files opened and images decoded) is passed explicitly.
  A \<open>char\<close> stands for a code point below 256.
\<close>

subsection \<open>Exceptions and events\<close>

text \<open>
  The two messages with which the parser raises \<^verbatim>\<open>InvalidAnnotationError\<close>: the field
  count of line 253, and \<^verbatim>\<open>_parse_field\<close>'s "Can't parse <field_name> from '<value>'".
\<close>

datatype invalid_annotation =
    UnexpectedFieldCount nat
  | CantParse string string

text \<open>
  \<open>ExternalError\<close> is an exception raised inside a collaborator that is not part of this
  file (image decoding, OpenCV, the YAML reader, the \<^verbatim>\<open>DatasetItem\<close> constructor).
\<close>

datatype exn =
    InvalidAnnotationError invalid_annotation
  | UndeclaredLabelError int
  | DatasetImportError string
  | ValueError string
  | KeyError string
  | TypeError string
  | AttributeError string
  | OSError string
  | RuntimeError string
  | ExternalError string

type_synonym item_key = "string \<times> string"

text \<open>
  What the extractor does to the outside, in order. \<open>ReportItemError\<close> and
  \<open>ReportAnnotationError\<close> are the two operations of the error policy
  (\<^verbatim>\<open>self._ctx.error_policy\<close>). Modelled from the spec: the error policy is the ErrorSink
  of section 4.5, which receives a failure with the item's identity and decides nothing
  about flow control, so both operations record the report and return.
  \<open>ParserCall\<close> marks an invocation of \<^verbatim>\<open>_parse_annotations\<close> with its path and
  item identity, \<open>SizeQuery\<close> a read of
  \<^verbatim>\<open>image.size\<close> and \<open>Decode\<close> the decoding of an image file.
\<close>

datatype event =
    ReportItemError exn item_key
  | ReportAnnotationError exn item_key
  | ParserCall string item_key
  | SizeQuery string
  | Decode string

subsection \<open>Data\<close>

text \<open>
  Modelled from the spec: \<^verbatim>\<open>Image\<close> (datumaro.components.media) is the ImageDescriptor of
  section 3, a file path with an optional known (height, width).
\<close>

record image =
  img_path :: string
  img_size :: "(int \<times> int) option"

text \<open>
  Modelled from the spec: \<^verbatim>\<open>Bbox\<close> (datumaro.components.annotation) holds what the
  constructor call of lines 275-284 passes: x, y, w, h, label, id, group and the
  \<^verbatim>\<open>angle\<close> attribute. \<open>'f\<close> is the type of Python floats.
\<close>

record 'f bbox =
  box_x :: 'f
  box_y :: 'f
  box_w :: 'f
  box_h :: 'f
  box_label :: int
  box_id :: nat
  box_group :: nat
  box_angle :: 'f

text \<open>A numpy array of points, with its dtype.\<close>

datatype 'f ndarray =
    Float64 "('f \<times> 'f) list"
  | Int32 "(32 word \<times> 32 word) list"

text \<open>A value loaded by \<^verbatim>\<open>yaml.safe_load\<close>; a mapping keeps its keys in document order.\<close>

datatype yaml =
    YNull
  | YBool bool
  | YInt int
  | YStr string
  | YList "yaml list"
  | YDict "(yaml \<times> yaml) list"

text \<open>
  Modelled from the spec: \<^verbatim>\<open>LabelCategories\<close> (datumaro.components.annotation) is the
  ordered collection of label names of section 3, where a label's id is its position.
\<close>

type_synonym label_categories = "yaml list"

text \<open>
  Everything the extractor calls that is not defined in its file: Python's \<^verbatim>\<open>int\<close> and
  \<^verbatim>\<open>float\<close> constructors (\<open>None\<close> where they raise), float times int, numpy's
  \<^verbatim>\<open>astype(np.int32)\<close>, \<^verbatim>\<open>cv2.minAreaRect\<close>, the image decoder behind
  \<^verbatim>\<open>Image.size\<close> (\<open>Inr None\<close> when no size can be had), the \<^verbatim>\<open>DatasetItem\<close>
  constructor, and the file system: the lines of a text file as iterating the open file
  yields them (\<open>None\<close> when opening or reading fails), the YAML documents, the dataset meta file,
  \<^verbatim>\<open>isdir\<close>, \<^verbatim>\<open>isfile\<close> and the image meta file reader; and the two constants
  \<^verbatim>\<open>YoloOrientedboxPath.META_FILE\<close> and \<^verbatim>\<open>DEFAULT_IMAGE_META_FILE_NAME\<close>.
  \<open>self_subset_name\<close> is the attribute \<^verbatim>\<open>self._subset_name\<close>, which this file reads at
  line 182 and never sets: \<open>None\<close> when the object has no such attribute.
  \<open>'item\<close> is the type of dataset items. Line 173 unpacks the parser's result into two
  names and line 177 passes the first of them on, so the constructor is called with one
  element of the list as its \<^verbatim>\<open>annotations\<close> argument.
\<close>

record ('f, 'item) externals =
  py_int :: "string \<Rightarrow> int option"
  py_float :: "string \<Rightarrow> 'f option"
  float_mul :: "'f \<Rightarrow> int \<Rightarrow> 'f"
  astype_int32 :: "'f \<Rightarrow> 32 word"
  minAreaRect :: "(32 word \<times> 32 word) list \<Rightarrow> string + (('f \<times> 'f) \<times> ('f \<times> 'f) \<times> 'f)"
  decode_size :: "string \<Rightarrow> string + (int \<times> int) option"
  DatasetItem :: "string \<Rightarrow> string \<Rightarrow> image \<Rightarrow> 'f bbox \<Rightarrow> string + 'item"
  read_lines :: "string \<Rightarrow> string list option"
  yaml_docs :: "string \<Rightarrow> (string + yaml) option"
  has_meta_file :: "string \<Rightarrow> bool"
  parse_meta_file :: "string \<Rightarrow> string + yaml list"
  isdir :: "string \<Rightarrow> bool"
  isfile :: "string \<Rightarrow> bool"
  load_image_meta_file :: "string \<Rightarrow> string + (string \<Rightarrow> (int \<times> int) option)"
  META_FILE :: string
  DEFAULT_IMAGE_META_FILE_NAME :: string
  self_subset_name :: "string option"

text \<open>Sequencing of computations that may raise.\<close>

definition bind :: "exn + 'a \<Rightarrow> ('a \<Rightarrow> exn + 'b) \<Rightarrow> exn + 'b" where
  "bind r f = (case r of Inl e \<Rightarrow> Inl e | Inr v \<Rightarrow> f v)"

subsection \<open>Strings and paths\<close>

text \<open>The code points below 256 for which \<^verbatim>\<open>str.isspace\<close> holds.\<close>

definition is_space :: "char \<Rightarrow> bool" where
  "is_space c = (c \<in> set [CHR 0x09, CHR 0x0A, CHR 0x0B, CHR 0x0C, CHR 0x0D,
     CHR 0x1C, CHR 0x1D, CHR 0x1E, CHR 0x1F, CHR 0x20, CHR 0x85, CHR 0xA0])"

text \<open>\<^verbatim>\<open>str.strip()\<close>.\<close>

definition strip :: "string \<Rightarrow> string" where
  "strip s = rev (dropWhile is_space (rev (dropWhile is_space s)))"

text \<open>
  \<^verbatim>\<open>str.split()\<close>: the maximal runs of characters that are not whitespace. \<open>cur\<close> is the
  run being read, reversed.
\<close>

fun split_from :: "string \<Rightarrow> string \<Rightarrow> string list" where
  "split_from cur [] = (if cur = [] then [] else [rev cur])"
| "split_from cur (c # cs) =
     (if is_space c then (if cur = [] then split_from [] cs else rev cur # split_from [] cs)
      else split_from (c # cur) cs)"

definition split :: "string \<Rightarrow> string list" where
  "split s = split_from [] s"

text \<open>\<^verbatim>\<open>posixpath.join\<close> of two components.\<close>

definition join :: "string \<Rightarrow> string \<Rightarrow> string" where
  "join a b =
     (if b \<noteq> [] \<and> hd b = CHR ''/'' then b
      else if a = [] \<or> last a = CHR ''/'' then a @ b
      else a @ ''/'' @ b)"

text \<open>
  \<^verbatim>\<open>posixpath.splitext(p)[0]\<close>: the path without its extension. The extension starts at
  the last dot of the last component, unless only dots precede it there.
\<close>

definition basename :: "string \<Rightarrow> string" where
  "basename p = rev (takeWhile (\<lambda>c. c \<noteq> CHR ''/'') (rev p))"

definition dirpart :: "string \<Rightarrow> string" where
  "dirpart p = rev (dropWhile (\<lambda>c. c \<noteq> CHR ''/'') (rev p))"

definition splitext_root :: "string \<Rightarrow> string" where
  "splitext_root p =
     (let name = basename p;
          ext = rev (takeWhile (\<lambda>c. c \<noteq> CHR ''.'') (rev name));
          stem = take (length name - length ext - 1) name
      in if CHR ''.'' \<in> set name \<and> list_ex (\<lambda>c. c \<noteq> CHR ''.'') stem
         then dirpart p @ stem else p)"

text \<open>\<^verbatim>\<open>posixpath.dirname\<close>.\<close>

definition dirname :: "string \<Rightarrow> string" where
  "dirname p =
     (let head = dirpart p
      in if head \<noteq> [] \<and> list_ex (\<lambda>c. c \<noteq> CHR ''/'') head
         then rev (dropWhile (\<lambda>c. c = CHR ''/'') (rev head)) else head)"

subsection \<open>The annotation parser\<close>

text \<open>
  \<^verbatim>\<open>Image.size\<close>. Modelled from the spec: a known size is returned as it is; an unknown
  one is resolved by decoding the image file on first use.
\<close>

definition Image_size ::
  "('f, 'item) externals \<Rightarrow> image \<Rightarrow> event list \<Rightarrow> (string + (int \<times> int) option) \<times> event list" where
  "Image_size X img evs =
     (case img_size img of
        Some s \<Rightarrow> (Inr (Some s), evs @ [SizeQuery (img_path img)])
      | None \<Rightarrow> (decode_size X (img_path img),
                 evs @ [SizeQuery (img_path img), Decode (img_path img)]))"

text \<open>
  \<^verbatim>\<open>label_id not in self._categories[AnnotationType.label]\<close>. Modelled from the spec:
  \<^verbatim>\<open>LabelCategories.__contains__\<close> on an integer says whether it is a valid index.
\<close>

definition contains :: "label_categories \<Rightarrow> int \<Rightarrow> bool" where
  "contains cats label_id = (0 \<le> label_id \<and> label_id < int (length cats))"

text \<open>\<^verbatim>\<open>_parse_field\<close>.\<close>

definition parse_field :: "string \<Rightarrow> (string \<Rightarrow> 'a option) \<Rightarrow> string \<Rightarrow> exn + 'a" where
  "parse_field val cls field_name =
     (case cls val of
        Some v \<Rightarrow> Inr v
      | None \<Rightarrow> Inl (InvalidAnnotationError (CantParse field_name val)))"

text \<open>\<^verbatim>\<open>xyxyxyxy2xywhr\<close>: the array is cast to int32 unless it has that dtype already.\<close>

definition xyxyxyxy2xywhr ::
  "('f, 'item) externals \<Rightarrow> 'f ndarray \<Rightarrow> string + (('f \<times> 'f) \<times> ('f \<times> 'f) \<times> 'f)" where
  "xyxyxyxy2xywhr X cnt =
     minAreaRect X
       (case cnt of
          Int32 pts \<Rightarrow> pts
        | Float64 pts \<Rightarrow> map (\<lambda>(a, b). (astype_int32 X a, astype_int32 X b)) pts)"

text \<open>
  The body of the \<^verbatim>\<open>try\<close> of lines 250-285 for the line \<open>line\<close> at index \<open>idx\<close>: the box
  it appends, or the exception it raises. \<open>hw\<close> is (height, width).
\<close>

definition parse_line ::
  "('f, 'item) externals \<Rightarrow> label_categories \<Rightarrow> int \<times> int \<Rightarrow> nat \<Rightarrow> string \<Rightarrow> exn + 'f bbox" where
  "parse_line X cats hw idx line =
     (let image_height = fst hw; image_width = snd hw; parts = split line
      in if length parts \<noteq> 9
         then Inl (InvalidAnnotationError (UnexpectedFieldCount (length parts)))
         else
           bind (parse_field (parts ! 0) (py_int X) ''oriented bbox label id'') (\<lambda>label_id.
           if \<not> contains cats label_id then Inl (UndeclaredLabelError label_id)
           else
           bind (parse_field (parts ! 1) (py_float X) ''oriented bbox x1'') (\<lambda>x1.
           bind (parse_field (parts ! 2) (py_float X) ''oriented bbox y1'') (\<lambda>y1.
           bind (parse_field (parts ! 3) (py_float X) ''oriented bbox x2'') (\<lambda>x2.
           bind (parse_field (parts ! 4) (py_float X) ''oriented bbox y2'') (\<lambda>y2.
           bind (parse_field (parts ! 5) (py_float X) ''oriented bbox x3'') (\<lambda>x3.
           bind (parse_field (parts ! 6) (py_float X) ''oriented bbox y3'') (\<lambda>y3.
           bind (parse_field (parts ! 7) (py_float X) ''oriented bbox x4'') (\<lambda>x4.
           bind (parse_field (parts ! 8) (py_float X) ''oriented bbox y4'') (\<lambda>y4.
           (case xyxyxyxy2xywhr X (Float64
                   [(float_mul X x1 image_width, float_mul X y1 image_height),
                    (float_mul X x2 image_width, float_mul X y2 image_height),
                    (float_mul X x3 image_width, float_mul X y3 image_height),
                    (float_mul X x4 image_width, float_mul X y4 image_height)]) of
              Inl m \<Rightarrow> Inl (ExternalError m)
            | Inr ((x, y), (w, h), r) \<Rightarrow>
                Inr \<lparr>box_x = x, box_y = y, box_w = w, box_h = h, box_label = label_id,
                     box_id = idx, box_group = idx, box_angle = r\<rparr>)))))))))))"

text \<open>
  The loop of line 249 over \<^verbatim>\<open>enumerate(lines)\<close>: a box is appended to
  \<open>annotations\<close>, an exception is reported with the item's identity.
\<close>

fun parse_loop ::
  "('f, 'item) externals \<Rightarrow> label_categories \<Rightarrow> int \<times> int \<Rightarrow> item_key \<Rightarrow>
   (nat \<times> string) list \<Rightarrow> 'f bbox list \<Rightarrow> event list \<Rightarrow> 'f bbox list \<times> event list" where
  "parse_loop X cats hw item_id [] annotations evs = (annotations, evs)"
| "parse_loop X cats hw item_id ((idx, line) # rest) annotations evs =
     (case parse_line X cats hw idx line of
        Inr b \<Rightarrow> parse_loop X cats hw item_id rest (annotations @ [b]) evs
      | Inl e \<Rightarrow>
          parse_loop X cats hw item_id rest annotations
            (evs @ [ReportAnnotationError e item_id]))"

text \<open>Lines 233-238: the stripped lines of the file that are not empty.\<close>

definition nonblank :: "string list \<Rightarrow> string list" where
  "nonblank raw = filter (\<lambda>line. line \<noteq> []) (map strip raw)"

text \<open>
  \<^verbatim>\<open>_parse_annotations\<close>. The size is read at line 244 and again at line 247; the
  second read finds the size the first one obtained, and is not recorded again.
\<close>

definition parse_annotations ::
  "('f, 'item) externals \<Rightarrow> label_categories \<Rightarrow> string \<Rightarrow> image \<Rightarrow> item_key \<Rightarrow> event list \<Rightarrow>
   (exn + 'f bbox list) \<times> event list" where
  "parse_annotations X cats anno_path img item_id evs0 =
     (let evs = evs0 @ [ParserCall anno_path item_id]
      in case read_lines X anno_path of
           None \<Rightarrow> (Inl (OSError anno_path), evs)
         | Some raw \<Rightarrow>
             (let lines = nonblank raw
              in if lines = [] then (Inr [], evs)
                 else
                   (case Image_size X img evs of
                      (Inl m, evs') \<Rightarrow> (Inl (ExternalError m), evs')
                    | (Inr None, evs') \<Rightarrow> (Inl (DatasetImportError (img_path img)), evs')
                    | (Inr (Some hw), evs') \<Rightarrow>
                        (let (annotations, evs'') =
                               parse_loop X cats hw item_id (enumerate 0 lines) [] evs'
                         in (Inr annotations, evs'')))))"

subsection \<open>The lazy item table\<close>

text \<open>
  An entry of \<^verbatim>\<open>Subset.items\<close>: the file name it starts with, or the item that replaced it.
  The table is an \<^verbatim>\<open>OrderedDict\<close>: an association list in insertion order.
\<close>

datatype 'item entry =
    Placeholder string
  | Resolved 'item

type_synonym 'item items = "(string \<times> 'item entry) list"

text \<open>
  The mutable state: \<^verbatim>\<open>self._subsets\<close> (subset name to item table; this file never assigns
  it, so it is given) and the events so far.
\<close>

record 'item state =
  subsets :: "(string \<times> 'item items) list"
  events :: "event list"

text \<open>The attributes of the extractor that \<^verbatim>\<open>__init__\<close> sets and the properties use.\<close>

record extractor =
  root_path :: string
  image_info :: "string \<Rightarrow> (int \<times> int) option"
  categories :: label_categories

text \<open>What \<^verbatim>\<open>_get\<close> returns: an item, \<^verbatim>\<open>None\<close>, or the entry's file name.\<close>

datatype 'item got =
    Item 'item
  | Nothing
  | FileName string

text \<open>
  Lines 173-179: the parser's result is unpacked into exactly two names (a
  \<^verbatim>\<open>ValueError\<close> for a list of any other length), and the item is built from the first.
\<close>

definition build_item ::
  "('f, 'item) externals \<Rightarrow> string \<Rightarrow> string \<Rightarrow> image \<Rightarrow> 'f bbox list \<Rightarrow> exn + 'item" where
  "build_item X item_id subset_name img parsed =
     (if length parsed < 2 then Inl (ValueError ''not enough values to unpack'')
      else if length parsed > 2 then Inl (ValueError ''too many values to unpack'')
      else
        (let annotations = parsed ! 0; angle = parsed ! 1
         in case DatasetItem X item_id subset_name img annotations of
              Inl m \<Rightarrow> Inl (ExternalError m)
            | Inr it \<Rightarrow> Inr it))"

definition is_annotation_error :: "exn \<Rightarrow> bool" where
  "is_annotation_error e =
     (case e of UndeclaredLabelError _ \<Rightarrow> True | InvalidAnnotationError _ \<Rightarrow> True | _ \<Rightarrow> False)"

text \<open>
  \<^verbatim>\<open>_get\<close>. The two subscripts of lines 159-160 raise \<^verbatim>\<open>KeyError\<close> outside the
  \<^verbatim>\<open>try\<close>. The first handler reports and leaves the entry; the second reports, pops
  the entry and returns \<^verbatim>\<open>None\<close>.
\<close>

definition extractor_get ::
  "('f, 'item) externals \<Rightarrow> extractor \<Rightarrow> string \<Rightarrow> string \<Rightarrow> 'item state \<Rightarrow>
   (exn + 'item got) \<times> 'item state" where
  "extractor_get X E item_id subset_name s =
     (case map_of (subsets s) subset_name of
        None \<Rightarrow> (Inl (KeyError subset_name), s)
      | Some items \<Rightarrow>
          (case map_of items item_id of
             None \<Rightarrow> (Inl (KeyError item_id), s)
           | Some (Resolved it) \<Rightarrow> (Inr (Item it), s)
           | Some (Placeholder item) \<Rightarrow>
               (let image_size = image_info E item_id;
                    image_path = join (root_path E) item;
                    img = \<lparr>img_path = image_path, img_size = image_size\<rparr>;
                    anno_path = splitext_root (img_path img) @ ''.txt'';
                    (parsed, evs) =
                      parse_annotations X (categories E) anno_path img (item_id, subset_name)
                        (events s)
                in case bind parsed (build_item X item_id subset_name img) of
                     Inr it \<Rightarrow>
                       (Inr (Item it),
                        s\<lparr>subsets :=
                            AList.update subset_name (AList.update item_id (Resolved it) items)
                              (subsets s),
                          events := evs\<rparr>)
                   | Inl e \<Rightarrow>
                       if is_annotation_error e then
                         (case self_subset_name X of
                            None \<Rightarrow> (Inl (AttributeError ''_subset_name''), s\<lparr>events := evs\<rparr>)
                          | Some sn \<Rightarrow>
                              (Inr (FileName item),
                               s\<lparr>events := evs @ [ReportAnnotationError e (item_id, sn)]\<rparr>))
                       else
                         (Inr Nothing,
                          s\<lparr>subsets :=
                              AList.update subset_name (AList.delete item_id items) (subsets s),
                            events := evs @ [ReportItemError e (item_id, subset_name)]\<rparr>))))"

text \<open>The keys of a subset's table, in order.\<close>

definition subset_keys :: "'item state \<Rightarrow> string \<Rightarrow> string list" where
  "subset_keys s name = (case map_of (subsets s) name of None \<Rightarrow> [] | Some items \<Rightarrow> map fst items)"

text \<open>
  \<^verbatim>\<open>Subset.__iter__\<close>, run to its end: the values it yields, the exception that ends it
  if one does, and the state. \<open>keys0\<close> are the table's keys when the loop starts and the
  fourth argument the keys still to visit. The iterator of an \<^verbatim>\<open>OrderedDict\<close> stops
  when no key is left, and otherwise raises \<^verbatim>\<open>RuntimeError\<close> when the table's keys have
  changed since the loop started; replacing the value of a key is no such change.
\<close>

fun iter_from ::
  "('f, 'item) externals \<Rightarrow> extractor \<Rightarrow> string \<Rightarrow> string list \<Rightarrow> string list \<Rightarrow>
   'item got list \<Rightarrow> 'item state \<Rightarrow> ('item got list \<times> exn option) \<times> 'item state" where
  "iter_from X E name keys0 [] out s = ((out, None), s)"
| "iter_from X E name keys0 (item_id # rest) out s =
     (if subset_keys s name \<noteq> keys0
      then ((out, Some (RuntimeError ''OrderedDict mutated during iteration'')), s)
      else
        (case extractor_get X E item_id name s of
           (Inl e, s') \<Rightarrow> ((out, Some e), s')
         | (Inr item, s') \<Rightarrow>
             iter_from X E name keys0 rest
               (case item of Nothing \<Rightarrow> out | _ \<Rightarrow> out @ [item]) s'))"

definition Subset_iter ::
  "('f, 'item) externals \<Rightarrow> extractor \<Rightarrow> string \<Rightarrow> 'item state \<Rightarrow>
   ('item got list \<times> exn option) \<times> 'item state" where
  "Subset_iter X E name s =
     iter_from X E name (subset_keys s name) (subset_keys s name) [] s"

subsection \<open>Categories and construction\<close>

text \<open>Modelled from the spec: \<^verbatim>\<open>LabelCategories.add\<close> appends a name; its id is its position.\<close>

definition LabelCategories_add :: "label_categories \<Rightarrow> yaml \<Rightarrow> label_categories" where
  "LabelCategories_add cats name = cats @ [name]"

text \<open>The subscript \<^verbatim>\<open>loaded["names"]\<close> on a loaded YAML value.\<close>

definition getitem :: "yaml \<Rightarrow> string \<Rightarrow> exn + yaml" where
  "getitem loaded key =
     (case loaded of
        YDict kvs \<Rightarrow>
          (case map_of kvs (YStr key) of None \<Rightarrow> Inl (KeyError key) | Some v \<Rightarrow> Inr v)
      | _ \<Rightarrow> Inl (TypeError ''subscript''))"

text \<open>\<^verbatim>\<open>_load_categories\<close>.\<close>

definition load_categories ::
  "('f, 'item) externals \<Rightarrow> string \<Rightarrow> exn + label_categories" where
  "load_categories X names_path =
     (if has_meta_file X (dirname names_path)
      then
        (case parse_meta_file X (dirname names_path) of
           Inl m \<Rightarrow> Inl (ExternalError m)
         | Inr keys \<Rightarrow> Inr (foldl LabelCategories_add [] keys))
      else
        (case yaml_docs X names_path of
           None \<Rightarrow> Inl (OSError names_path)
         | Some (Inl m) \<Rightarrow> Inl (ExternalError m)
         | Some (Inr loaded) \<Rightarrow>
             bind (getitem loaded ''names'') (\<lambda>names.
             bind (case names of
                     YList xs \<Rightarrow> Inr xs
                   | YDict kvs \<Rightarrow> Inr (map snd kvs)
                   | _ \<Rightarrow> Inl (DatasetImportError names_path)) (\<lambda>label_names.
             Inr (foldl LabelCategories_add [] label_names)))))"

text \<open>The \<^verbatim>\<open>image_info\<close> argument: \<^verbatim>\<open>None\<close>, a path or a dictionary.\<close>

datatype image_info_arg =
    InfoNone
  | InfoPath string
  | InfoDict "string \<Rightarrow> (int \<times> int) option"

text \<open>\<^verbatim>\<open>parse_image_info\<close>.\<close>

definition parse_image_info ::
  "('f, 'item) externals \<Rightarrow> string \<Rightarrow> image_info_arg \<Rightarrow> exn + (string \<Rightarrow> (int \<times> int) option)" where
  "parse_image_info X rootpath info =
     (let info' =
        (case info of
           InfoNone \<Rightarrow>
             (let p = join rootpath (DEFAULT_IMAGE_META_FILE_NAME X)
              in if \<not> isfile X p then InfoDict (\<lambda>k. None) else InfoPath p)
         | _ \<Rightarrow> info)
      in case info' of
           InfoPath p \<Rightarrow>
             (case load_image_meta_file X p of
                Inl m \<Rightarrow> Inl (ExternalError m)
              | Inr d \<Rightarrow> Inr d)
         | InfoDict d \<Rightarrow> Inr d
         | InfoNone \<Rightarrow> Inr (\<lambda>k. None))"

text \<open>
  \<^verbatim>\<open>__init__\<close>, as far as the attributes above go (the image index \<^verbatim>\<open>_img_files\<close> is
  left out). An exception of \<^verbatim>\<open>_load_categories\<close> is not handled: no extractor is built.
  \<open>urls\<close> is \<open>[]\<close> for \<^verbatim>\<open>None\<close> as for the empty list.
\<close>

definition init ::
  "('f, 'item) externals \<Rightarrow> string \<Rightarrow> image_info_arg \<Rightarrow> string list \<Rightarrow> exn + extractor" where
  "init X config_path info urls =
     (if \<not> isdir X config_path then Inl (DatasetImportError config_path)
      else if urls = [] then Inl (DatasetImportError ''urls should be specified'')
      else
        bind (parse_image_info X config_path info) (\<lambda>image_info'.
        bind (load_categories X (join config_path (META_FILE X))) (\<lambda>cats.
        Inr \<lparr>root_path = config_path, image_info = image_info', categories = cats\<rparr>)))"

subsection \<open>Notions used to state the properties\<close>

text \<open>
  The outcome of every line of \<open>lines\<close> taken on its own, at its index; the boxes and
  the exceptions among a list of outcomes, in order.
\<close>

definition line_outcomes ::
  "('f, 'item) externals \<Rightarrow> label_categories \<Rightarrow> int \<times> int \<Rightarrow> string list \<Rightarrow> (exn + 'f bbox) list" where
  "line_outcomes X cats hw lines =
     map (\<lambda>(idx, line). parse_line X cats hw idx line) (enumerate 0 lines)"

definition survivors :: "(exn + 'b) list \<Rightarrow> 'b list" where
  "survivors rs = concat (map (\<lambda>r. case r of Inr b \<Rightarrow> [b] | Inl e \<Rightarrow> []) rs)"

definition failures :: "(exn + 'b) list \<Rightarrow> exn list" where
  "failures rs = concat (map (\<lambda>r. case r of Inl e \<Rightarrow> [e] | Inr b \<Rightarrow> []) rs)"

text \<open>
  Every box of \<open>anns\<close> has its id as its group, and its id is the position in \<open>lines\<close>
  of the line it was parsed from.
\<close>

definition ordinals_index_into ::
  "('f, 'item) externals \<Rightarrow> label_categories \<Rightarrow> int \<times> int \<Rightarrow> string list \<Rightarrow> 'f bbox list \<Rightarrow> bool" where
  "ordinals_index_into X cats hw lines anns =
     list_all (\<lambda>b. box_group b = box_id b \<and> box_id b < length lines \<and>
                    parse_line X cats hw (box_id b) (lines ! box_id b) = Inr b) anns"

text \<open>
  The four corners of a line of nine fields whose coordinates parse: each x scaled by the
  width, each y by the height, and cast to int32. \<open>None\<close> for any other line.
\<close>

definition truncated_corners ::
  "('f, 'item) externals \<Rightarrow> int \<times> int \<Rightarrow> string \<Rightarrow> (32 word \<times> 32 word) list option" where
  "truncated_corners X hw line =
     (let parts = split line
      in if length parts = 9 \<and> list_all (\<lambda>t. py_float X t \<noteq> None) (tl parts)
         then Some
           [(astype_int32 X (float_mul X (the (py_float X (parts ! 1))) (snd hw)),
             astype_int32 X (float_mul X (the (py_float X (parts ! 2))) (fst hw))),
            (astype_int32 X (float_mul X (the (py_float X (parts ! 3))) (snd hw)),
             astype_int32 X (float_mul X (the (py_float X (parts ! 4))) (fst hw))),
            (astype_int32 X (float_mul X (the (py_float X (parts ! 5))) (snd hw)),
             astype_int32 X (float_mul X (the (py_float X (parts ! 6))) (fst hw))),
            (astype_int32 X (float_mul X (the (py_float X (parts ! 7))) (snd hw)),
             astype_int32 X (float_mul X (the (py_float X (parts ! 8))) (fst hw)))]
         else None)"

text \<open>
  A caller's sequence of \<^verbatim>\<open>_get\<close> calls, each with an item id and a subset name, whatever
  they return or raise; the number of parser invocations for one item among some events.
\<close>

fun gets ::
  "('f, 'item) externals \<Rightarrow> extractor \<Rightarrow> (string \<times> string) list \<Rightarrow> 'item state \<Rightarrow> 'item state" where
  "gets X E [] s = s"
| "gets X E ((item_id, subset_name) # calls) s =
     gets X E calls (snd (extractor_get X E item_id subset_name s))"

definition parser_calls :: "item_key \<Rightarrow> event list \<Rightarrow> nat" where
  "parser_calls k evs =
     length (filter (\<lambda>ev. case ev of ParserCall p k' \<Rightarrow> k' = k | _ \<Rightarrow> False) evs)"

text \<open>
  The entry of item \<open>item_id\<close> in subset \<open>name\<close>: \<open>None\<close> when there is no such
  subset, \<open>Some None\<close> when the subset has no such key.
\<close>

definition entry_of :: "'item state \<Rightarrow> string \<Rightarrow> string \<Rightarrow> 'item entry option option" where
  "entry_of s name item_id = map_option (\<lambda>items. map_of items item_id) (map_of (subsets s) name)"

definition pending :: "'item state \<Rightarrow> string \<Rightarrow> string \<Rightarrow> bool" where
  "pending s name item_id =
     (case entry_of s name item_id of Some (Some (Placeholder f)) \<Rightarrow> True | _ \<Rightarrow> False)"

subsection \<open>A sample environment\<close>

text \<open>
  One environment to run the definitions in. A float is a whole number of thousandths:
  \<open>sample_float\<close> reads an optional minus sign, digits and an optional fraction, of which
  it keeps three digits; the cast to int32 drops the thousandths, towards zero;
  \<open>sample_rect\<close> returns the axis-parallel rectangle around the points, with angle 0.
  \<open>sample_int\<close> reads an optional minus sign and digits. No image can be decoded. An item
  is its id, subset, image and the annotation it is given. \<open>files\<close> lists the text files
  with their lines, \<open>docs\<close> the YAML documents.
\<close>

fun digits_value :: "nat \<Rightarrow> string \<Rightarrow> nat option" where
  "digits_value acc [] = Some acc"
| "digits_value acc (c # cs) =
     (if c \<in> set ''0123456789''
      then digits_value (10 * acc + (of_char c - 48)) cs else None)"

definition unsigned_part :: "string \<Rightarrow> bool \<times> string" where
  "unsigned_part s =
     (case s of
        [] \<Rightarrow> (False, [])
      | c # cs \<Rightarrow> if c = CHR ''-'' then (True, cs) else (False, s))"

definition sample_int :: "string \<Rightarrow> int option" where
  "sample_int s =
     (let (neg, body) = unsigned_part s
      in if body = [] then None
         else map_option (\<lambda>n. if neg then - int n else int n) (digits_value 0 body))"

definition sample_float :: "string \<Rightarrow> int option" where
  "sample_float s =
     (let (neg, body) = unsigned_part s;
          whole = takeWhile (\<lambda>c. c \<noteq> CHR ''.'') body;
          frac = drop 1 (dropWhile (\<lambda>c. c \<noteq> CHR ''.'') body)
      in if whole = [] then None
         else
           (case (digits_value 0 whole, digits_value 0 frac,
                  digits_value 0 (take 3 (frac @ ''000''))) of
              (Some a, Some b, Some c) \<Rightarrow>
                Some ((if neg then - 1 else 1) * (int a * 1000 + int c))
            | _ \<Rightarrow> None))"

definition sample_astype :: "int \<Rightarrow> 32 word" where
  "sample_astype v = word_of_int (if v < 0 then - ((- v) div 1000) else v div 1000)"

definition sample_rect ::
  "(32 word \<times> 32 word) list \<Rightarrow> string + ((int \<times> int) \<times> (int \<times> int) \<times> int)" where
  "sample_rect pts =
     (let xs = map (\<lambda>p. sint (fst p)) pts; ys = map (\<lambda>p. sint (snd p)) pts;
          x0 = fold min xs (hd xs); x1 = fold max xs (hd xs);
          y0 = fold min ys (hd ys); y1 = fold max ys (hd ys)
      in Inr (((x0 + x1) * 500, (y0 + y1) * 500),
              ((x1 - x0) * 1000, (y1 - y0) * 1000), 0))"

type_synonym sample_item = "string \<times> string \<times> image \<times> int bbox"

definition sampleX ::
  "(string \<times> string list) list \<Rightarrow> (string \<times> yaml) list \<Rightarrow> (int, sample_item) externals" where
  "sampleX files docs =
     \<lparr>py_int = sample_int,
      py_float = sample_float,
      float_mul = (\<lambda>v n. v * n),
      astype_int32 = sample_astype,
      minAreaRect = sample_rect,
      decode_size = (\<lambda>p. Inr None),
      DatasetItem = (\<lambda>item_id subset_name img annotations.
        Inr (item_id, subset_name, img, annotations)),
      read_lines = map_of files,
      yaml_docs = (\<lambda>p. map_option Inr (map_of docs p)),
      has_meta_file = (\<lambda>p. False),
      parse_meta_file = (\<lambda>p. Inl ''no meta file''),
      isdir = (\<lambda>p. True),
      isfile = (\<lambda>p. False),
      load_image_meta_file = (\<lambda>p. Inl ''no image meta file''),
      META_FILE = ''data.yaml'',
      DEFAULT_IMAGE_META_FILE_NAME = ''images.meta'',
      self_subset_name = None\<rparr>"

text \<open>
  A text file as the file iterator yields it, each line with its newline; an annotation
  file of six lines (a box, a line of eight fields, a blank line, an undeclared label, a
  coordinate that is no number, a box); the image of item \<open>a\<close> with its size known and
  not known.
\<close>

definition with_newlines :: "string list \<Rightarrow> string list" where
  "with_newlines ls = map (\<lambda>l. l @ [CHR 0x0A]) ls"

definition sample_lines :: "string list" where
  "sample_lines = with_newlines
     [''0 0.25 0.25 0.75 0.25 0.75 0.75 0.25 0.75'',
      ''0 0.25 0.25 0.75 0.25 0.75 0.75 0.25'',
      ''   '',
      ''7 0.25 0.25 0.75 0.25 0.75 0.75 0.25 0.75'',
      ''0 0.25 0.25 0.75 0.25 0.75 0.75 0.25 north'',
      ''  1 0.1 0.1 0.2 0.1 0.2 0.3 0.1 0.3'']"

definition sample_image :: image where
  "sample_image = \<lparr>img_path = ''ds/a.jpg'', img_size = Some (100, 100)\<rparr>"

definition sample_image_unsized :: image where
  "sample_image_unsized = \<lparr>img_path = ''ds/a.jpg'', img_size = None\<rparr>"

definition sampleE :: extractor where
  "sampleE =
     \<lparr>root_path = ''ds'',
      image_info = map_of [(''a'', (100, 100)), (''b'', (100, 100))],
      categories = [YStr ''car'', YStr ''bus'']\<rparr>"

text \<open>
  An annotation file with two boxes, and a state in which subset \<open>train\<close> holds the
  items \<open>a\<close> and \<open>b\<close>, both still file names.
\<close>

definition sample_two_boxes :: "string list" where
  "sample_two_boxes = with_newlines
     [''0 0.25 0.25 0.75 0.25 0.75 0.75 0.25 0.75'',
      ''1 0.1 0.1 0.2 0.1 0.2 0.3 0.1 0.3'']"

definition sample_state :: "sample_item state" where
  "sample_state =
     \<lparr>subsets = [(''train'', [(''a'', Placeholder ''a.jpg''), (''b'', Placeholder ''b.jpg'')])],
      events = []\<rparr>"

section \<open>Properties of the annotation parser\<close>

lemma bind_Inr_iff: "bind r f = Inr v \<longleftrightarrow> (\<exists>u. r = Inr u \<and> f u = Inr v)"
  by (cases r) (simp_all add: bind_def)

lemma bind_Inl_iff: "bind r f = Inl e \<longleftrightarrow> r = Inl e \<or> (\<exists>u. r = Inr u \<and> f u = Inl e)"
  by (cases r) (simp_all add: bind_def)

lemma parse_field_Inr_iff: "parse_field v cls n = Inr u \<longleftrightarrow> cls v = Some u"
  by (simp add: parse_field_def split: option.splits)

lemma rect_case_Inr_iff:
  "(case R of Inl m \<Rightarrow> Inl (ExternalError m) | Inr ((x, y), (w, h), r) \<Rightarrow> Inr (F x y w h r)) = Inr b
   \<longleftrightarrow> (\<exists>x y w h r. R = Inr ((x, y), (w, h), r) \<and> b = F x y w h r)"
  by (cases R) (auto split: prod.splits)

text \<open>When a line yields a box: nine fields, a declared label, eight floats, a rectangle.\<close>

lemma parse_line_Inr_iff:
  "parse_line X cats hw i l = Inr b \<longleftrightarrow>
     length (split l) = 9 \<and>
     (\<exists>lab x1 y1 x2 y2 x3 y3 x4 y4 x y w h r.
        py_int X (split l ! 0) = Some lab \<and> contains cats lab \<and>
        py_float X (split l ! 1) = Some x1 \<and> py_float X (split l ! 2) = Some y1 \<and>
        py_float X (split l ! 3) = Some x2 \<and> py_float X (split l ! 4) = Some y2 \<and>
        py_float X (split l ! 5) = Some x3 \<and> py_float X (split l ! 6) = Some y3 \<and>
        py_float X (split l ! 7) = Some x4 \<and> py_float X (split l ! 8) = Some y4 \<and>
        xyxyxyxy2xywhr X (Float64
          [(float_mul X x1 (snd hw), float_mul X y1 (fst hw)),
           (float_mul X x2 (snd hw), float_mul X y2 (fst hw)),
           (float_mul X x3 (snd hw), float_mul X y3 (fst hw)),
           (float_mul X x4 (snd hw), float_mul X y4 (fst hw))]) = Inr ((x, y), (w, h), r) \<and>
        b = \<lparr>box_x = x, box_y = y, box_w = w, box_h = h, box_label = lab,
              box_id = i, box_group = i, box_angle = r\<rparr>)"
  unfolding parse_line_def Let_def
  by (simp add: bind_Inr_iff parse_field_Inr_iff rect_case_Inr_iff) blast

lemma parse_line_ordinal:
  assumes "parse_line X cats hw i l = Inr b"
  shows "box_id b = i \<and> box_group b = i"
  using assms unfolding parse_line_Inr_iff by auto

text \<open>The loop, as the outcomes of its lines one by one.\<close>

lemma parse_loop_eq:
  "parse_loop X cats hw k ps anns evs =
     (anns @ survivors (map (\<lambda>(i, l). parse_line X cats hw i l) ps),
      evs @ map (\<lambda>e. ReportAnnotationError e k)
              (failures (map (\<lambda>(i, l). parse_line X cats hw i l) ps)))"
  by (induction ps arbitrary: anns evs)
     (auto simp: survivors_def failures_def split: sum.splits)

lemma outcomes_count: "length (survivors rs) + length (failures rs) = length rs"
  by (induction rs) (auto simp: survivors_def failures_def split: sum.splits)

lemma set_survivors: "b \<in> set (survivors rs) \<longleftrightarrow> Inr b \<in> set rs"
  by (induction rs) (auto simp: survivors_def split: sum.splits)

lemma survivors_Cons:
  "survivors (r # rs) = (case r of Inr b \<Rightarrow> [b] | Inl e \<Rightarrow> []) @ survivors rs"
  by (simp add: survivors_def)

lemma parse_annotations_cases:
  "parse_annotations X cats p img k evs =
     (case read_lines X p of
        None \<Rightarrow> (Inl (OSError p), evs @ [ParserCall p k])
      | Some raw \<Rightarrow>
          if nonblank raw = [] then (Inr [], evs @ [ParserCall p k])
          else
            (case Image_size X img (evs @ [ParserCall p k]) of
               (Inl m, evs') \<Rightarrow> (Inl (ExternalError m), evs')
             | (Inr None, evs') \<Rightarrow> (Inl (DatasetImportError (img_path img)), evs')
             | (Inr (Some hw), evs') \<Rightarrow>
                 (Inr (survivors (line_outcomes X cats hw (nonblank raw))),
                  evs' @ map (\<lambda>e. ReportAnnotationError e k)
                           (failures (line_outcomes X cats hw (nonblank raw))))))"
  by (simp add: parse_annotations_def Let_def parse_loop_eq line_outcomes_def
           split: option.splits prod.splits sum.splits)

lemma line_outcomes_nth:
  "i < length lines \<Longrightarrow> line_outcomes X cats hw lines ! i = parse_line X cats hw i (lines ! i)"
  by (simp add: line_outcomes_def nth_enumerate_eq)

lemma survivors_enumerate:
  assumes "b \<in> set (survivors (map (\<lambda>(i, l). parse_line X cats hw i l) (enumerate n ls)))"
  shows "n \<le> box_id b \<and> box_id b < n + length ls \<and> box_group b = box_id b \<and>
         parse_line X cats hw (box_id b) (ls ! (box_id b - n)) = Inr b"
proof -
  from assms obtain i l where il: "(i, l) \<in> set (enumerate n ls)"
    and pl: "parse_line X cats hw i l = Inr b"
    by (auto simp: set_survivors)
  from il have "n \<le> i" "i < length ls + n" "ls ! (i - n) = l"
    by (simp_all add: in_set_enumerate_eq)
  moreover from pl have "box_id b = i" "box_group b = i"
    by (simp_all add: parse_line_ordinal)
  ultimately show ?thesis using pl by simp
qed

lemma survivors_sorted:
  "sorted_wrt (<) (map box_id
     (survivors (map (\<lambda>(i, l). parse_line X cats hw i l) (enumerate n ls))))"
proof (induction ls arbitrary: n)
  case Nil
  then show ?case by (simp add: survivors_def)
next
  case (Cons l ls)
  have later: "\<And>b. b \<in> set (survivors (map (\<lambda>(i, l). parse_line X cats hw i l)
                   (enumerate (Suc n) ls))) \<Longrightarrow> n < box_id b"
    using survivors_enumerate [of _ X cats hw "Suc n" ls] by fastforce
  show ?case
  proof (cases "parse_line X cats hw n l")
    case (Inl e)
    then show ?thesis using Cons.IH [of "Suc n"] by (simp add: survivors_Cons)
  next
    case (Inr b)
    then have "box_id b = n" by (simp add: parse_line_ordinal)
    then show ?thesis using Inr Cons.IH [of "Suc n"] later
      by (auto simp: survivors_Cons)
  qed
qed

text \<open>
  C4. Each non-blank line is handled on its own. When the file cannot be opened the
  parser raises the \<^verbatim>\<open>OSError\<close> to its caller. When it can, and the image size is
  known, the parser returns normally whatever the lines hold: the annotations are the
  boxes of the lines that parse, in order; every other line is reported once through
  \<^verbatim>\<open>report_annotation_error\<close> with the item's identity, in order; each line gives
  exactly one of the two; and the outcome at position \<open>i\<close> is that of line \<open>i\<close> alone.
\<close>

theorem parse_annotations_isolates_lines:
  "(read_lines X p = None \<longrightarrow> fst (parse_annotations X cats p img k evs) = Inl (OSError p)) \<and>
   (read_lines X p = Some raw \<and> nonblank raw \<noteq> [] \<and>
    Image_size X img (evs @ [ParserCall p k]) = (Inr (Some hw), evs') \<longrightarrow>
      parse_annotations X cats p img k evs =
        (Inr (survivors (line_outcomes X cats hw (nonblank raw))),
         evs' @ map (\<lambda>e. ReportAnnotationError e k)
                  (failures (line_outcomes X cats hw (nonblank raw)))) \<and>
      length (survivors (line_outcomes X cats hw (nonblank raw))) +
        length (failures (line_outcomes X cats hw (nonblank raw))) = length (nonblank raw) \<and>
      (\<forall>i < length (nonblank raw).
         line_outcomes X cats hw (nonblank raw) ! i = parse_line X cats hw i (nonblank raw ! i)))"
proof (intro conjI impI)
  assume "read_lines X p = None"
  then show "fst (parse_annotations X cats p img k evs) = Inl (OSError p)"
    by (simp add: parse_annotations_cases)
next
  assume h: "read_lines X p = Some raw \<and> nonblank raw \<noteq> [] \<and>
    Image_size X img (evs @ [ParserCall p k]) = (Inr (Some hw), evs')"
  then show "parse_annotations X cats p img k evs =
        (Inr (survivors (line_outcomes X cats hw (nonblank raw))),
         evs' @ map (\<lambda>e. ReportAnnotationError e k)
                  (failures (line_outcomes X cats hw (nonblank raw))))"
    by (simp add: parse_annotations_cases)
  show "length (survivors (line_outcomes X cats hw (nonblank raw))) +
        length (failures (line_outcomes X cats hw (nonblank raw))) = length (nonblank raw)"
    by (simp add: outcomes_count line_outcomes_def)
  show "\<forall>i < length (nonblank raw).
         line_outcomes X cats hw (nonblank raw) ! i = parse_line X cats hw i (nonblank raw ! i)"
    by (simp add: line_outcomes_nth)
qed

theorem parse_annotations_isolates_lines_witness:
  "fst (parse_annotations (sampleX [(''ds/a.txt'', sample_lines)] []) (categories sampleE)
          ''ds/b.txt'' sample_image (''b'', ''train'') []) = Inl (OSError ''ds/b.txt'') \<and>
   parse_annotations (sampleX [(''ds/a.txt'', sample_lines)] []) (categories sampleE)
       ''ds/a.txt'' sample_image (''a'', ''train'') [] =
     (Inr [\<lparr>box_x = 50000, box_y = 50000, box_w = 50000, box_h = 50000, box_label = 0,
            box_id = 0, box_group = 0, box_angle = 0\<rparr>,
           \<lparr>box_x = 15000, box_y = 20000, box_w = 10000, box_h = 20000, box_label = 1,
            box_id = 4, box_group = 4, box_angle = 0\<rparr>],
      [ParserCall ''ds/a.txt'' (''a'', ''train''), SizeQuery ''ds/a.jpg'',
       ReportAnnotationError (InvalidAnnotationError (UnexpectedFieldCount 8)) (''a'', ''train''),
       ReportAnnotationError (UndeclaredLabelError 7) (''a'', ''train''),
       ReportAnnotationError
         (InvalidAnnotationError (CantParse ''oriented bbox y4'' ''north'')) (''a'', ''train'')])"
proof -
  have n: "read_lines (sampleX [(''ds/a.txt'', sample_lines)] []) ''ds/b.txt'' = None"
    by code_simp
  have h: "read_lines (sampleX [(''ds/a.txt'', sample_lines)] []) ''ds/a.txt'' = Some sample_lines \<and>
      nonblank sample_lines \<noteq> [] \<and>
      Image_size (sampleX [(''ds/a.txt'', sample_lines)] []) sample_image
        ([] @ [ParserCall ''ds/a.txt'' (''a'', ''train'')]) =
      (Inr (Some (100, 100)), [ParserCall ''ds/a.txt'' (''a'', ''train''), SizeQuery ''ds/a.jpg''])"
    by code_simp
  have sv: "survivors (line_outcomes (sampleX [(''ds/a.txt'', sample_lines)] [])
        (categories sampleE) (100, 100) (nonblank sample_lines)) =
      [\<lparr>box_x = 50000, box_y = 50000, box_w = 50000, box_h = 50000, box_label = 0,
            box_id = 0, box_group = 0, box_angle = 0\<rparr>,
       \<lparr>box_x = 15000, box_y = 20000, box_w = 10000, box_h = 20000, box_label = 1,
            box_id = 4, box_group = 4, box_angle = 0\<rparr>]"
    by code_simp
  have fl: "failures (line_outcomes (sampleX [(''ds/a.txt'', sample_lines)] [])
        (categories sampleE) (100, 100) (nonblank sample_lines)) =
      [InvalidAnnotationError (UnexpectedFieldCount 8), UndeclaredLabelError 7,
       InvalidAnnotationError (CantParse ''oriented bbox y4'' ''north'')]"
    by code_simp
  note t1 = parse_annotations_isolates_lines
    [where X = "sampleX [(''ds/a.txt'', sample_lines)] []" and p = "''ds/b.txt''"
       and cats = "categories sampleE" and img = sample_image and k = "(''b'', ''train'')"
       and evs = "[]"]
  note t2 = parse_annotations_isolates_lines
    [where X = "sampleX [(''ds/a.txt'', sample_lines)] []" and p = "''ds/a.txt''"
       and cats = "categories sampleE" and img = sample_image and k = "(''a'', ''train'')"
       and evs = "[]" and raw = sample_lines and hw = "(100, 100)"
       and evs' = "[ParserCall ''ds/a.txt'' (''a'', ''train''), SizeQuery ''ds/a.jpg'']"]
  from t1 n have 1: "fst (parse_annotations (sampleX [(''ds/a.txt'', sample_lines)] [])
      (categories sampleE) ''ds/b.txt'' sample_image (''b'', ''train'') []) =
      Inl (OSError ''ds/b.txt'')"
    by blast
  from t2 h have 2: "parse_annotations (sampleX [(''ds/a.txt'', sample_lines)] [])
      (categories sampleE) ''ds/a.txt'' sample_image (''a'', ''train'') [] =
      (Inr (survivors (line_outcomes (sampleX [(''ds/a.txt'', sample_lines)] [])
          (categories sampleE) (100, 100) (nonblank sample_lines))),
       [ParserCall ''ds/a.txt'' (''a'', ''train''), SizeQuery ''ds/a.jpg''] @
       map (\<lambda>e. ReportAnnotationError e (''a'', ''train''))
         (failures (line_outcomes (sampleX [(''ds/a.txt'', sample_lines)] [])
            (categories sampleE) (100, 100) (nonblank sample_lines))))"
    by blast
  show ?thesis using 1 2 unfolding sv fl by simp
qed

text \<open>
  C6. A file without a non-blank line gives the empty list, and the only event is the
  parser's invocation: the image size is not read and nothing is decoded. With a
  non-blank line and an image whose size is neither known nor obtainable by decoding,
  the parser raises \<^verbatim>\<open>DatasetImportError\<close>, and no line has been reported.
\<close>

theorem parse_annotations_defers_image_size:
  "(read_lines X p = Some raw \<and> nonblank raw = [] \<longrightarrow>
      parse_annotations X cats p img k evs = (Inr [], evs @ [ParserCall p k])) \<and>
   (read_lines X p = Some raw \<and> nonblank raw \<noteq> [] \<and>
    img_size img = None \<and> decode_size X (img_path img) = Inr None \<longrightarrow>
      parse_annotations X cats p img k evs =
        (Inl (DatasetImportError (img_path img)),
         evs @ [ParserCall p k, SizeQuery (img_path img), Decode (img_path img)]))"
  by (simp add: parse_annotations_cases Image_size_def)

theorem parse_annotations_defers_image_size_witness:
  "parse_annotations (sampleX [(''ds/a.txt'', with_newlines ['''', ''  ''])] [])
       (categories sampleE) ''ds/a.txt'' sample_image_unsized (''a'', ''train'') [] =
     (Inr [], [ParserCall ''ds/a.txt'' (''a'', ''train'')]) \<and>
   parse_annotations (sampleX [(''ds/a.txt'', sample_lines)] [])
       (categories sampleE) ''ds/a.txt'' sample_image_unsized (''a'', ''train'') [] =
     (Inl (DatasetImportError ''ds/a.jpg''),
      [ParserCall ''ds/a.txt'' (''a'', ''train''), SizeQuery ''ds/a.jpg'', Decode ''ds/a.jpg''])"
proof -
  have h1: "read_lines (sampleX [(''ds/a.txt'', with_newlines ['''', ''  ''])] []) ''ds/a.txt'' =
      Some (with_newlines ['''', ''  '']) \<and> nonblank (with_newlines ['''', ''  '']) = []"
    by code_simp
  have h2: "read_lines (sampleX [(''ds/a.txt'', sample_lines)] []) ''ds/a.txt'' = Some sample_lines \<and>
      nonblank sample_lines \<noteq> [] \<and> img_size sample_image_unsized = None \<and>
      decode_size (sampleX [(''ds/a.txt'', sample_lines)] []) (img_path sample_image_unsized) =
        Inr None"
    by code_simp
  have p: "img_path sample_image_unsized = ''ds/a.jpg''"
    by code_simp
  note t1 = parse_annotations_defers_image_size
    [where X = "sampleX [(''ds/a.txt'', with_newlines ['''', ''  ''])] []" and p = "''ds/a.txt''"
       and raw = "with_newlines ['''', ''  '']" and cats = "categories sampleE"
       and img = sample_image_unsized and k = "(''a'', ''train'')" and evs = "[]"]
  note t2 = parse_annotations_defers_image_size
    [where X = "sampleX [(''ds/a.txt'', sample_lines)] []" and p = "''ds/a.txt''"
       and raw = sample_lines and cats = "categories sampleE"
       and img = sample_image_unsized and k = "(''a'', ''train'')" and evs = "[]"]
  from t1 h1 have 1: "parse_annotations (sampleX [(''ds/a.txt'', with_newlines ['''', ''  ''])] [])
       (categories sampleE) ''ds/a.txt'' sample_image_unsized (''a'', ''train'') [] =
     (Inr [], [] @ [ParserCall ''ds/a.txt'' (''a'', ''train'')])"
    by blast
  from t2 h2 have 2: "parse_annotations (sampleX [(''ds/a.txt'', sample_lines)] [])
       (categories sampleE) ''ds/a.txt'' sample_image_unsized (''a'', ''train'') [] =
     (Inl (DatasetImportError (img_path sample_image_unsized)),
      [] @ [ParserCall ''ds/a.txt'' (''a'', ''train''), SizeQuery (img_path sample_image_unsized),
            Decode (img_path sample_image_unsized)])"
    by blast
  show ?thesis using 1 2 unfolding p by simp
qed

text \<open>
  C5, as amended. Every box the parser returns has as its id and its group the position
  of its line among the non-blank lines of the file, whichever other lines failed; the
  ids are strictly increasing.
\<close>

theorem ordinals_are_positions_among_nonblank_lines:
  assumes "parse_annotations X cats p img k evs = (Inr anns, evs')"
  shows "\<exists>raw hw. read_lines X p = Some raw \<and>
           ordinals_index_into X cats hw (nonblank raw) anns \<and>
           sorted_wrt (<) (map box_id anns)"
proof -
  from assms obtain raw where raw: "read_lines X p = Some raw"
    by (auto simp: parse_annotations_cases split: option.splits)
  show ?thesis
  proof (cases "nonblank raw = []")
    case True
    with assms raw have "anns = []" by (simp add: parse_annotations_cases)
    then show ?thesis using raw by (simp add: ordinals_index_into_def)
  next
    case False
    with assms raw obtain hw where
      anns: "anns = survivors (line_outcomes X cats hw (nonblank raw))"
      by (auto simp: parse_annotations_cases split: prod.splits sum.splits option.splits)
    have "ordinals_index_into X cats hw (nonblank raw) anns"
      unfolding ordinals_index_into_def list_all_iff anns line_outcomes_def
      using survivors_enumerate [of _ X cats hw 0 "nonblank raw"] by auto
    moreover have "sorted_wrt (<) (map box_id anns)"
      unfolding anns line_outcomes_def by (rule survivors_sorted)
    ultimately show ?thesis using raw by blast
  qed
qed

theorem ordinals_are_positions_among_nonblank_lines_witness:
  "\<exists>raw hw anns.
     read_lines (sampleX [(''ds/a.txt'', sample_lines)] []) ''ds/a.txt'' = Some raw \<and>
     fst (parse_annotations (sampleX [(''ds/a.txt'', sample_lines)] []) (categories sampleE)
            ''ds/a.txt'' sample_image (''a'', ''train'') []) = Inr anns \<and>
     map box_id anns = [0, 4] \<and>
     ordinals_index_into (sampleX [(''ds/a.txt'', sample_lines)] []) (categories sampleE) hw
       (nonblank raw) anns \<and>
     sorted_wrt (<) (map box_id anns)"
proof -
  have h: "parse_annotations (sampleX [(''ds/a.txt'', sample_lines)] []) (categories sampleE)
       ''ds/a.txt'' sample_image (''a'', ''train'') [] =
     (Inr [\<lparr>box_x = 50000, box_y = 50000, box_w = 50000, box_h = 50000, box_label = 0,
            box_id = 0, box_group = 0, box_angle = 0\<rparr>,
           \<lparr>box_x = 15000, box_y = 20000, box_w = 10000, box_h = 20000, box_label = 1,
            box_id = 4, box_group = 4, box_angle = 0\<rparr>],
      [ParserCall ''ds/a.txt'' (''a'', ''train''), SizeQuery ''ds/a.jpg'',
       ReportAnnotationError (InvalidAnnotationError (UnexpectedFieldCount 8)) (''a'', ''train''),
       ReportAnnotationError (UndeclaredLabelError 7) (''a'', ''train''),
       ReportAnnotationError
         (InvalidAnnotationError (CantParse ''oriented bbox y4'' ''north'')) (''a'', ''train'')])"
    by code_simp
  from ordinals_are_positions_among_nonblank_lines [OF h] h
  show ?thesis by auto
qed

text \<open>
  C5 as stated fails: in a file whose first line is blank, the box of the second line
  has id 0, and position 0 of the file holds no line that yields it.
\<close>

theorem ordinal_is_not_file_position:
  "\<not> (\<forall>raw anns evs'.
        parse_annotations (sampleX [(''ds/a.txt'', raw)] []) (categories sampleE)
          ''ds/a.txt'' sample_image (''a'', ''train'') [] = (Inr anns, evs') \<longrightarrow>
        ordinals_index_into (sampleX [(''ds/a.txt'', raw)] []) (categories sampleE) (100, 100)
          (map strip raw) anns)"
proof
  assume a: "\<forall>raw anns evs'.
        parse_annotations (sampleX [(''ds/a.txt'', raw)] []) (categories sampleE)
          ''ds/a.txt'' sample_image (''a'', ''train'') [] = (Inr anns, evs') \<longrightarrow>
        ordinals_index_into (sampleX [(''ds/a.txt'', raw)] []) (categories sampleE) (100, 100)
          (map strip raw) anns"
  have p: "parse_annotations
      (sampleX [(''ds/a.txt'',
         with_newlines ['''', ''0 0.25 0.25 0.75 0.25 0.75 0.75 0.25 0.75''])] [])
      (categories sampleE) ''ds/a.txt'' sample_image (''a'', ''train'') [] =
     (Inr [\<lparr>box_x = 50000, box_y = 50000, box_w = 50000, box_h = 50000, box_label = 0,
            box_id = 0, box_group = 0, box_angle = 0\<rparr>],
      [ParserCall ''ds/a.txt'' (''a'', ''train''), SizeQuery ''ds/a.jpg''])"
    by code_simp
  have n: "\<not> ordinals_index_into
      (sampleX [(''ds/a.txt'',
         with_newlines ['''', ''0 0.25 0.25 0.75 0.25 0.75 0.75 0.25 0.75''])] [])
      (categories sampleE) (100, 100)
      (map strip (with_newlines ['''', ''0 0.25 0.25 0.75 0.25 0.75 0.75 0.25 0.75'']))
      [\<lparr>box_x = 50000, box_y = 50000, box_w = 50000, box_h = 50000, box_label = 0,
            box_id = 0, box_group = 0, box_angle = 0\<rparr>]"
    by code_simp
  from a p n show False by blast
qed

section \<open>Properties of the geometry\<close>

lemma floats_of_fields:
  assumes "length (split l) = 9" and "list_all (\<lambda>t. py_float X t \<noteq> None) (tl (split l))"
    and "1 \<le> j" and "j < 9"
  shows "\<exists>v. py_float X (split l ! j) = Some v"
proof -
  from assms(3) obtain n where j: "j = Suc n" by (cases j) auto
  with assms(1,4) have n: "n < length (tl (split l))" by simp
  with assms(2) have "py_float X (tl (split l) ! n) \<noteq> None" by (simp add: list_all_length)
  with n j show ?thesis by (auto simp: nth_tl)
qed

text \<open>The box of a line is computed from its label and its truncated corners.\<close>

lemma parse_line_via_corners:
  assumes tc: "truncated_corners X hw l = Some pts"
    and lab: "py_int X (split l ! 0) = Some lab" and dec: "contains cats lab"
  shows "parse_line X cats hw i l =
     (case minAreaRect X pts of
        Inl m \<Rightarrow> Inl (ExternalError m)
      | Inr ((x, y), (w, h), r) \<Rightarrow>
          Inr \<lparr>box_x = x, box_y = y, box_w = w, box_h = h, box_label = lab,
               box_id = i, box_group = i, box_angle = r\<rparr>)"
proof -
  from tc have len: "length (split l) = 9"
    and fl: "list_all (\<lambda>t. py_float X t \<noteq> None) (tl (split l))"
    by (auto simp: truncated_corners_def Let_def split: if_splits)
  obtain x1 where x1: "py_float X (split l ! 1) = Some x1"
    using floats_of_fields [OF len fl, of 1] by auto
  obtain y1 where y1: "py_float X (split l ! 2) = Some y1"
    using floats_of_fields [OF len fl, of 2] by auto
  obtain x2 where x2: "py_float X (split l ! 3) = Some x2"
    using floats_of_fields [OF len fl, of 3] by auto
  obtain y2 where y2: "py_float X (split l ! 4) = Some y2"
    using floats_of_fields [OF len fl, of 4] by auto
  obtain x3 where x3: "py_float X (split l ! 5) = Some x3"
    using floats_of_fields [OF len fl, of 5] by auto
  obtain y3 where y3: "py_float X (split l ! 6) = Some y3"
    using floats_of_fields [OF len fl, of 6] by auto
  obtain x4 where x4: "py_float X (split l ! 7) = Some x4"
    using floats_of_fields [OF len fl, of 7] by auto
  obtain y4 where y4: "py_float X (split l ! 8) = Some y4"
    using floats_of_fields [OF len fl, of 8] by auto
  from tc len fl have pts: "pts =
     [(astype_int32 X (float_mul X x1 (snd hw)), astype_int32 X (float_mul X y1 (fst hw))),
      (astype_int32 X (float_mul X x2 (snd hw)), astype_int32 X (float_mul X y2 (fst hw))),
      (astype_int32 X (float_mul X x3 (snd hw)), astype_int32 X (float_mul X y3 (fst hw))),
      (astype_int32 X (float_mul X x4 (snd hw)), astype_int32 X (float_mul X y4 (fst hw)))]"
    using x1 y1 x2 y2 x3 y3 x4 y4 by (simp add: truncated_corners_def Let_def)
  show ?thesis
    unfolding parse_line_def Let_def pts
    using len lab dec x1 y1 x2 y2 x3 y3 x4 y4
    by (simp add: bind_def parse_field_def xyxyxyxy2xywhr_def)
qed

text \<open>
  C9. The rectangle is computed from the corners after each scaled coordinate has been
  cast to int32. Two lines with the same declared label whose scaled coordinates cast to
  the same integers, at any positions \<open>i\<close> and \<open>j\<close>, fare alike: either the rectangle
  routine raises for both, or both give a box, with the same x, y, w, h and angle, which
  are the rectangle of the integer points.
\<close>

theorem box_depends_on_truncated_corners_only:
  assumes "truncated_corners X hw l1 = Some pts" and "truncated_corners X hw l2 = Some pts"
    and "py_int X (split l1 ! 0) = Some lab" and "py_int X (split l2 ! 0) = Some lab"
    and "contains cats lab"
  shows "(\<exists>m. minAreaRect X pts = Inl m \<and>
              parse_line X cats hw i l1 = Inl (ExternalError m) \<and>
              parse_line X cats hw j l2 = Inl (ExternalError m)) \<or>
         (\<exists>b1 b2. parse_line X cats hw i l1 = Inr b1 \<and> parse_line X cats hw j l2 = Inr b2 \<and>
              minAreaRect X pts =
                Inr ((box_x b1, box_y b1), (box_w b1, box_h b1), box_angle b1) \<and>
              box_x b2 = box_x b1 \<and> box_y b2 = box_y b1 \<and> box_w b2 = box_w b1 \<and>
              box_h b2 = box_h b1 \<and> box_angle b2 = box_angle b1 \<and>
              box_label b1 = lab \<and> box_label b2 = lab)"
proof -
  note p1 = parse_line_via_corners [OF assms(1) assms(3) assms(5), of i]
  note p2 = parse_line_via_corners [OF assms(2) assms(4) assms(5), of j]
  show ?thesis
  proof (cases "minAreaRect X pts")
    case (Inl m)
    with p1 p2 show ?thesis by simp
  next
    case (Inr rect)
    obtain x y w h r where "rect = ((x, y), (w, h), r)" by (cases rect) auto
    with Inr p1 p2 show ?thesis by simp
  qed
qed

theorem box_depends_on_truncated_corners_only_witness:
  "truncated_corners (sampleX [] []) (100, 100) ''0 0.251 0.259 0.75 0.25 0.75 0.75 0.25 0.75''
     = Some [(25, 25), (75, 25), (75, 75), (25, 75)] \<and>
   truncated_corners (sampleX [] []) (100, 100) ''0 0.25 0.25 0.757 0.25 0.75 0.75 0.25 0.75''
     = Some [(25, 25), (75, 25), (75, 75), (25, 75)] \<and>
   (\<exists>b1 b2.
      parse_line (sampleX [] []) [YStr ''car''] (100, 100) 0
        ''0 0.251 0.259 0.75 0.25 0.75 0.75 0.25 0.75'' = Inr b1 \<and>
      parse_line (sampleX [] []) [YStr ''car''] (100, 100) 1
        ''0 0.25 0.25 0.757 0.25 0.75 0.75 0.25 0.75'' = Inr b2 \<and>
      box_x b1 = 50000 \<and> box_y b1 = 50000 \<and> box_w b1 = 50000 \<and> box_h b1 = 50000 \<and>
      box_angle b1 = 0 \<and>
      box_x b2 = 50000 \<and> box_y b2 = 50000 \<and> box_w b2 = 50000 \<and> box_h b2 = 50000 \<and>
      box_angle b2 = 0)"
proof -
  have h1: "truncated_corners (sampleX [] []) (100, 100)
      ''0 0.251 0.259 0.75 0.25 0.75 0.75 0.25 0.75'' = Some [(25, 25), (75, 25), (75, 75), (25, 75)]"
    by code_simp
  have h2: "truncated_corners (sampleX [] []) (100, 100)
      ''0 0.25 0.25 0.757 0.25 0.75 0.75 0.25 0.75'' = Some [(25, 25), (75, 25), (75, 75), (25, 75)]"
    by code_simp
  have h3: "py_int (sampleX [] []) (split ''0 0.251 0.259 0.75 0.25 0.75 0.75 0.25 0.75'' ! 0) = Some 0"
    by code_simp
  have h4: "py_int (sampleX [] []) (split ''0 0.25 0.25 0.757 0.25 0.75 0.75 0.25 0.75'' ! 0) = Some 0"
    by code_simp
  have h5: "contains [YStr ''car''] 0"
    by code_simp
  have r: "minAreaRect (sampleX [] []) [(25, 25), (75, 25), (75, 75), (25, 75)] =
      Inr ((50000, 50000), (50000, 50000), 0)"
    by code_simp
  from box_depends_on_truncated_corners_only [OF h1 h2 h3 h4 h5, of 0 1]
  obtain b1 b2 where b:
    "parse_line (sampleX [] []) [YStr ''car''] (100, 100) 0
       ''0 0.251 0.259 0.75 0.25 0.75 0.75 0.25 0.75'' = Inr b1"
    "parse_line (sampleX [] []) [YStr ''car''] (100, 100) 1
       ''0 0.25 0.25 0.757 0.25 0.75 0.75 0.25 0.75'' = Inr b2"
    "minAreaRect (sampleX [] []) [(25, 25), (75, 25), (75, 75), (25, 75)] =
       Inr ((box_x b1, box_y b1), (box_w b1, box_h b1), box_angle b1)"
    "box_x b2 = box_x b1" "box_y b2 = box_y b1" "box_w b2 = box_w b1"
    "box_h b2 = box_h b1" "box_angle b2 = box_angle b1"
    unfolding r by auto
  from b(3) have "box_x b1 = 50000" "box_y b1 = 50000" "box_w b1 = 50000"
    "box_h b1 = 50000" "box_angle b1 = 0"
    unfolding r by simp_all
  with b h1 h2 show ?thesis by auto
qed

text \<open>A line of nine fields with a declared label and eight floats gives a box.\<close>

lemma accepted_line_gives_box:
  assumes "length (split l) = 9" and "py_int X (split l ! 0) = Some lab"
    and "contains cats lab"
    and "list_all (\<lambda>t. py_float X t \<noteq> None) (tl (split l))"
    and "\<And>pts. length pts = 4 \<Longrightarrow> \<exists>rect. minAreaRect X pts = Inr rect"
  shows "\<exists>b pts. parse_line X cats hw i l = Inr b \<and> box_label b = lab \<and> box_id b = i \<and>
           truncated_corners X hw l = Some pts \<and>
           minAreaRect X pts = Inr ((box_x b, box_y b), (box_w b, box_h b), box_angle b)"
proof -
  from assms(1,4) obtain pts where tc: "truncated_corners X hw l = Some pts"
    and len: "length pts = 4"
    by (auto simp: truncated_corners_def Let_def)
  from assms(5) [OF len] obtain rect where rect: "minAreaRect X pts = Inr rect" by blast
  obtain x y w h r where "rect = ((x, y), (w, h), r)" by (cases rect) auto
  with rect parse_line_via_corners [OF tc assms(2) assms(3), of i] tc
  show ?thesis by simp
qed

lemma survivors_append: "survivors (rs @ rs') = survivors rs @ survivors rs'"
  by (simp add: survivors_def)

lemma failures_append: "failures (rs @ rs') = failures rs @ failures rs'"
  by (simp add: failures_def)

text \<open>A line that gives a box adds that box at its place, and no report.\<close>

lemma outcomes_around_box:
  assumes "i < length rs" and "rs ! i = Inr b"
  shows "survivors rs = survivors (take i rs) @ [b] @ survivors (drop (Suc i) rs) \<and>
         failures rs = failures (take i rs) @ failures (drop (Suc i) rs)"
proof -
  note split_at = id_take_nth_drop [OF assms(1)]
  have "survivors rs = survivors (take i rs @ rs ! i # drop (Suc i) rs)"
    by (rule arg_cong [OF split_at])
  moreover have "failures rs = failures (take i rs @ rs ! i # drop (Suc i) rs)"
    by (rule arg_cong [OF split_at])
  moreover have "survivors (rs ! i # drop (Suc i) rs) = b # survivors (drop (Suc i) rs)"
    and "failures (rs ! i # drop (Suc i) rs) = failures (drop (Suc i) rs)"
    using assms(2) by (simp_all add: survivors_def failures_def)
  ultimately show ?thesis
    by (simp add: survivors_append failures_append)
qed

text \<open>
  C10. Let a file be readable and the image size known, and let the non-blank line at
  position \<open>i\<close> have nine fields, a declared label and eight fields that parse as floats,
  whatever their values: the parser has no range check. Then the parser returns
  normally, the list it returns holds the box of that line, with ordinal \<open>i\<close>, between
  the boxes of the lines before and after it, and the reports are those of the other
  lines only. The box is the rectangle of the scaled corners, which may lie outside the
  image. The rectangle routine is taken to return for four integer points.
\<close>

theorem out_of_range_coordinates_are_accepted:
  assumes "read_lines X p = Some raw"
    and "Image_size X img (evs @ [ParserCall p k]) = (Inr (Some hw), evs')"
    and "i < length (nonblank raw)" and "l = nonblank raw ! i"
    and "length (split l) = 9" and "py_int X (split l ! 0) = Some lab"
    and "contains cats lab"
    and "list_all (\<lambda>t. py_float X t \<noteq> None) (tl (split l))"
    and "\<And>pts. length pts = 4 \<Longrightarrow> \<exists>rect. minAreaRect X pts = Inr rect"
  shows "\<exists>b pts anns.
           parse_annotations X cats p img k evs =
             (Inr anns,
              evs' @ map (\<lambda>e. ReportAnnotationError e k)
                       (failures (take i (line_outcomes X cats hw (nonblank raw))) @
                        failures (drop (Suc i) (line_outcomes X cats hw (nonblank raw))))) \<and>
           anns = survivors (take i (line_outcomes X cats hw (nonblank raw))) @ [b] @
                  survivors (drop (Suc i) (line_outcomes X cats hw (nonblank raw))) \<and>
           b \<in> set anns \<and>
           parse_line X cats hw i l = Inr b \<and> box_label b = lab \<and> box_id b = i \<and>
           truncated_corners X hw l = Some pts \<and>
           minAreaRect X pts = Inr ((box_x b, box_y b), (box_w b, box_h b), box_angle b)"
proof -
  let ?outs = "line_outcomes X cats hw (nonblank raw)"
  from accepted_line_gives_box [OF assms(5-9), of hw i] obtain b pts where
    b: "parse_line X cats hw i l = Inr b" "box_label b = lab" "box_id b = i"
      "truncated_corners X hw l = Some pts"
      "minAreaRect X pts = Inr ((box_x b, box_y b), (box_w b, box_h b), box_angle b)"
    by blast
  from assms(3,4) b(1) have nth: "?outs ! i = Inr b"
    by (simp add: line_outcomes_nth)
  from assms(3) have len: "i < length ?outs"
    by (simp add: line_outcomes_def)
  note around = outcomes_around_box [OF len nth]
  from assms(3) have "nonblank raw \<noteq> []" by auto
  with assms(1,2) have "parse_annotations X cats p img k evs =
      (Inr (survivors ?outs),
       evs' @ map (\<lambda>e. ReportAnnotationError e k) (failures ?outs))"
    by (simp add: parse_annotations_cases)
  with around have "parse_annotations X cats p img k evs =
      (Inr (survivors (take i ?outs) @ [b] @ survivors (drop (Suc i) ?outs)),
       evs' @ map (\<lambda>e. ReportAnnotationError e k)
                (failures (take i ?outs) @ failures (drop (Suc i) ?outs)))"
    by simp
  with b show ?thesis by auto
qed

theorem out_of_range_coordinates_are_accepted_witness:
  "nonblank (with_newlines
      [''0 0.25 0.25 0.75 0.25 0.75 0.75 0.25'',
       ''1 -0.5 0.25 1.75 0.25 1.75 0.75 -0.5 0.75'']) ! 1 =
     ''1 -0.5 0.25 1.75 0.25 1.75 0.75 -0.5 0.75'' \<and>
   py_float (sampleX [] []) (split ''1 -0.5 0.25 1.75 0.25 1.75 0.75 -0.5 0.75'' ! 1)
     = Some (- 500) \<and>
   py_float (sampleX [] []) (split ''1 -0.5 0.25 1.75 0.25 1.75 0.75 -0.5 0.75'' ! 3)
     = Some 1750 \<and>
   (\<exists>b. parse_annotations
          (sampleX [(''ds/a.txt'', with_newlines
             [''0 0.25 0.25 0.75 0.25 0.75 0.75 0.25'',
              ''1 -0.5 0.25 1.75 0.25 1.75 0.75 -0.5 0.75''])] [])
          (categories sampleE) ''ds/a.txt'' sample_image (''a'', ''train'') [] =
          (Inr [b],
           [ParserCall ''ds/a.txt'' (''a'', ''train''), SizeQuery ''ds/a.jpg'',
            ReportAnnotationError (InvalidAnnotationError (UnexpectedFieldCount 8))
              (''a'', ''train'')]) \<and>
        box_label b = 1 \<and> box_id b = 1 \<and>
        truncated_corners
          (sampleX [(''ds/a.txt'', with_newlines
             [''0 0.25 0.25 0.75 0.25 0.75 0.75 0.25'',
              ''1 -0.5 0.25 1.75 0.25 1.75 0.75 -0.5 0.75''])] [])
          (100, 100) ''1 -0.5 0.25 1.75 0.25 1.75 0.75 -0.5 0.75'' =
          Some [(- 50, 25), (175, 25), (175, 75), (- 50, 75)] \<and>
        minAreaRect
          (sampleX [(''ds/a.txt'', with_newlines
             [''0 0.25 0.25 0.75 0.25 0.75 0.75 0.25'',
              ''1 -0.5 0.25 1.75 0.25 1.75 0.75 -0.5 0.75''])] [])
          [(- 50, 25), (175, 25), (175, 75), (- 50, 75)] =
          Inr ((box_x b, box_y b), (box_w b, box_h b), box_angle b))"
proof -
  let ?raw = "with_newlines
      [''0 0.25 0.25 0.75 0.25 0.75 0.75 0.25'',
       ''1 -0.5 0.25 1.75 0.25 1.75 0.75 -0.5 0.75'']"
  let ?X = "sampleX [(''ds/a.txt'', ?raw)] []"
  let ?l = "''1 -0.5 0.25 1.75 0.25 1.75 0.75 -0.5 0.75''"
  let ?outs = "line_outcomes ?X (categories sampleE) (100, 100) (nonblank ?raw)"
  have h1: "read_lines ?X ''ds/a.txt'' = Some ?raw"
    by code_simp
  have h2: "Image_size ?X sample_image ([] @ [ParserCall ''ds/a.txt'' (''a'', ''train'')]) =
      (Inr (Some (100, 100)), [ParserCall ''ds/a.txt'' (''a'', ''train''), SizeQuery ''ds/a.jpg''])"
    by code_simp
  have h3: "1 < length (nonblank ?raw)"
    by code_simp
  have nb: "nonblank ?raw ! 1 = ?l"
    by code_simp
  then have h4: "?l = nonblank ?raw ! 1"
    by simp
  have h5: "length (split ?l) = 9"
    by code_simp
  have h6: "py_int ?X (split ?l ! 0) = Some 1"
    by code_simp
  have h7: "contains (categories sampleE) 1"
    by code_simp
  have h8: "list_all (\<lambda>t. py_float ?X t \<noteq> None) (tl (split ?l))"
    by code_simp
  have h9: "\<And>pts. length pts = 4 \<Longrightarrow> \<exists>rect. minAreaRect ?X pts = Inr rect"
    by (simp add: sampleX_def sample_rect_def Let_def)
  have f1: "py_float (sampleX [] []) (split ?l ! 1) = Some (- 500)"
    by code_simp
  have f3: "py_float (sampleX [] []) (split ?l ! 3) = Some 1750"
    by code_simp
  have tc: "truncated_corners ?X (100, 100) ?l =
          Some [(- 50, 25), (175, 25), (175, 75), (- 50, 75)]"
    by code_simp
  have before: "survivors (take 1 ?outs) = []"
    "failures (take 1 ?outs) = [InvalidAnnotationError (UnexpectedFieldCount 8)]"
    by code_simp+
  have after: "survivors (drop (Suc 1) ?outs) = []" "failures (drop (Suc 1) ?outs) = []"
    by code_simp+
  from out_of_range_coordinates_are_accepted [OF h1 h2 h3 h4 h5 h6 h7 h8 h9]
  obtain b pts where
    "parse_annotations ?X (categories sampleE) ''ds/a.txt'' sample_image (''a'', ''train'') [] =
       (Inr (survivors (take 1 ?outs) @ [b] @ survivors (drop (Suc 1) ?outs)),
        [ParserCall ''ds/a.txt'' (''a'', ''train''), SizeQuery ''ds/a.jpg''] @
        map (\<lambda>e. ReportAnnotationError e (''a'', ''train''))
          (failures (take 1 ?outs) @ failures (drop (Suc 1) ?outs)))"
    and "box_label b = 1" and "box_id b = 1"
    and "truncated_corners ?X (100, 100) ?l = Some pts"
    and "minAreaRect ?X pts = Inr ((box_x b, box_y b), (box_w b, box_h b), box_angle b)"
    by blast
  then have "parse_annotations ?X (categories sampleE) ''ds/a.txt'' sample_image
        (''a'', ''train'') [] =
       (Inr [b],
        [ParserCall ''ds/a.txt'' (''a'', ''train''), SizeQuery ''ds/a.jpg'',
         ReportAnnotationError (InvalidAnnotationError (UnexpectedFieldCount 8))
           (''a'', ''train'')]) \<and>
      box_label b = 1 \<and> box_id b = 1 \<and>
      truncated_corners ?X (100, 100) ?l = Some [(- 50, 25), (175, 25), (175, 75), (- 50, 75)] \<and>
      minAreaRect ?X [(- 50, 25), (175, 25), (175, 75), (- 50, 75)] =
        Inr ((box_x b, box_y b), (box_w b, box_h b), box_angle b)"
    unfolding before after using tc by simp
  with nb f1 f3 show ?thesis by blast
qed

section \<open>Properties of the item table\<close>

lemma parser_calls_append:
  "parser_calls k (evs @ evs') = parser_calls k evs + parser_calls k evs'"
  by (simp add: parser_calls_def)

lemma parser_calls_reports:
  "parser_calls k (map (\<lambda>e. ReportAnnotationError e k') es) = 0"
  by (induction es) (simp_all add: parser_calls_def)

text \<open>One call of the parser is one \<open>ParserCall\<close> of its item, and none of another.\<close>

lemma parser_calls_parse_annotations:
  "parser_calls k (snd (parse_annotations X cats p img k' evs)) =
     parser_calls k evs + (if k = k' then 1 else 0)"
  by (auto simp: parse_annotations_cases Image_size_def parser_calls_append
        parser_calls_reports
        split: option.splits sum.splits prod.splits)
     (simp_all add: parser_calls_def)

text \<open>The parser and the item constructor raise no annotation error.\<close>

lemma parse_annotations_error_kind:
  "parse_annotations X cats p img k evs = (Inl e, evs') \<Longrightarrow> \<not> is_annotation_error e"
  by (auto simp: parse_annotations_cases is_annotation_error_def
        split: option.splits sum.splits prod.splits if_splits)

lemma build_item_error_kind:
  "build_item X i sn img parsed = Inl e \<Longrightarrow> \<not> is_annotation_error e"
  by (auto simp: build_item_def Let_def is_annotation_error_def split: if_splits sum.splits)

lemma resolve_error_kind:
  assumes "parse_annotations X cats p img k evs = (parsed, evs')"
    and "bind parsed (build_item X i sn img) = Inl e"
  shows "\<not> is_annotation_error e"
  using assms parse_annotations_error_kind [of X cats p img k evs e evs']
    build_item_error_kind [of X i sn img _ e]
  by (auto simp: bind_Inl_iff)

text \<open>What \<^verbatim>\<open>_get\<close> does to an entry that is still a file name.\<close>

lemma get_placeholder:
  assumes "map_of (subsets s) sn = Some items" and "map_of items i = Some (Placeholder f)"
    and "parse_annotations X (categories E) (splitext_root (join (root_path E) f) @ ''.txt'')
           \<lparr>img_path = join (root_path E) f, img_size = image_info E i\<rparr> (i, sn) (events s) =
         (parsed, evs)"
  shows "extractor_get X E i sn s =
     (case bind parsed (build_item X i sn
             \<lparr>img_path = join (root_path E) f, img_size = image_info E i\<rparr>) of
        Inr it \<Rightarrow>
          (Inr (Item it),
           s\<lparr>subsets := AList.update sn (AList.update i (Resolved it) items) (subsets s),
             events := evs\<rparr>)
      | Inl e \<Rightarrow>
          (Inr Nothing,
           s\<lparr>subsets := AList.update sn (AList.delete i items) (subsets s),
             events := evs @ [ReportItemError e (i, sn)]\<rparr>))"
proof (cases "bind parsed (build_item X i sn
             \<lparr>img_path = join (root_path E) f, img_size = image_info E i\<rparr>)")
  case (Inl e)
  with assms(3) have "\<not> is_annotation_error e" by (rule resolve_error_kind)
  with Inl assms show ?thesis by (simp add: extractor_get_def Let_def)
next
  case (Inr it)
  with assms show ?thesis by (simp add: extractor_get_def Let_def)
qed

text \<open>
  C1 fails on the code. Line 173 unpacks the list the parser returns into two names, so
  unless exactly two boxes survive, \<^verbatim>\<open>_get\<close> raises \<^verbatim>\<open>ValueError\<close> inside its own
  \<^verbatim>\<open>try\<close>: the entry is reported as an item error and popped, and \<^verbatim>\<open>None\<close> is returned.
\<close>

theorem get_evicts_unless_two_boxes_survive:
  assumes "map_of (subsets s) sn = Some items" and "map_of items i = Some (Placeholder f)"
    and "parse_annotations X (categories E) (splitext_root (join (root_path E) f) @ ''.txt'')
           \<lparr>img_path = join (root_path E) f, img_size = image_info E i\<rparr> (i, sn) (events s) =
         (Inr anns, evs)"
    and "length anns \<noteq> 2"
  shows "\<exists>msg. extractor_get X E i sn s =
     (Inr Nothing,
      s\<lparr>subsets := AList.update sn (AList.delete i items) (subsets s),
        events := evs @ [ReportItemError (ValueError msg) (i, sn)]\<rparr>)"
proof -
  from assms(4) have "length anns < 2 \<or> length anns > 2" by arith
  then have "\<exists>msg.
    build_item X i sn \<lparr>img_path = join (root_path E) f, img_size = image_info E i\<rparr> anns =
       Inl (ValueError msg)"
    by (auto simp: build_item_def)
  then show ?thesis
    using get_placeholder [OF assms(1,2,3)] by (auto simp: bind_def)
qed

theorem get_evicts_unless_two_boxes_survive_witness:
  "fst (parse_annotations
     (sampleX [(''ds/a.txt'', with_newlines
        [''0 0.25 0.25 0.75 0.25 0.75 0.75 0.25 0.75'',
         ''0 0.25 0.25 0.75 0.25 0.75 0.75 0.25''])] [])
     (categories sampleE) ''ds/a.txt'' sample_image (''a'', ''train'') []) =
     Inr [\<lparr>box_x = 50000, box_y = 50000, box_w = 50000, box_h = 50000, box_label = 0,
           box_id = 0, box_group = 0, box_angle = 0\<rparr>] \<and>
   (\<exists>msg. extractor_get
     (sampleX [(''ds/a.txt'', with_newlines
        [''0 0.25 0.25 0.75 0.25 0.75 0.75 0.25 0.75'',
         ''0 0.25 0.25 0.75 0.25 0.75 0.75 0.25''])] [])
     sampleE ''a'' ''train''
     \<lparr>subsets = [(''train'', [(''a'', Placeholder ''a.jpg'')])], events = []\<rparr> =
     (Inr Nothing,
      \<lparr>subsets = [(''train'', [])],
       events =
         [ParserCall ''ds/a.txt'' (''a'', ''train''), SizeQuery ''ds/a.jpg'',
          ReportAnnotationError (InvalidAnnotationError (UnexpectedFieldCount 8))
            (''a'', ''train''),
          ReportItemError (ValueError msg) (''a'', ''train'')]\<rparr>))"
proof -
  let ?X = "sampleX [(''ds/a.txt'', with_newlines
        [''0 0.25 0.25 0.75 0.25 0.75 0.75 0.25 0.75'',
         ''0 0.25 0.25 0.75 0.25 0.75 0.75 0.25''])] []"
  let ?s = "\<lparr>subsets = [(''train'', [(''a'', Placeholder ''a.jpg'')])], events = []\<rparr>
    :: sample_item state"
  have h1: "map_of (subsets ?s) ''train'' = Some [(''a'', Placeholder ''a.jpg'')]"
    by simp
  have h2: "map_of [(''a'', Placeholder ''a.jpg'' :: sample_item entry)] ''a'' =
      Some (Placeholder ''a.jpg'')"
    by simp
  have h3: "parse_annotations ?X (categories sampleE)
      (splitext_root (join (root_path sampleE) ''a.jpg'') @ ''.txt'')
      \<lparr>img_path = join (root_path sampleE) ''a.jpg'', img_size = image_info sampleE ''a''\<rparr>
      (''a'', ''train'') (events ?s) =
      (Inr [\<lparr>box_x = 50000, box_y = 50000, box_w = 50000, box_h = 50000, box_label = 0,
           box_id = 0, box_group = 0, box_angle = 0\<rparr>],
       [ParserCall ''ds/a.txt'' (''a'', ''train''), SizeQuery ''ds/a.jpg'',
        ReportAnnotationError (InvalidAnnotationError (UnexpectedFieldCount 8))
          (''a'', ''train'')])"
    by code_simp
  have h4: "length [\<lparr>box_x = 50000 :: int, box_y = 50000, box_w = 50000, box_h = 50000,
      box_label = 0, box_id = 0, box_group = 0, box_angle = 0\<rparr>] \<noteq> 2"
    by simp
  have p: "fst (parse_annotations ?X (categories sampleE) ''ds/a.txt'' sample_image
      (''a'', ''train'') []) =
     Inr [\<lparr>box_x = 50000, box_y = 50000, box_w = 50000, box_h = 50000, box_label = 0,
           box_id = 0, box_group = 0, box_angle = 0\<rparr>]"
    by code_simp
  from get_evicts_unless_two_boxes_survive [OF h1 h2 h3 h4] p
  show ?thesis by (simp add: AList.delete_eq)
qed

text \<open>
  C2 fails on the code. \<^verbatim>\<open>_get\<close> pops the failed entry from the table that
  \<^verbatim>\<open>Subset.__iter__\<close> is iterating over, so the next step of the loop raises
  \<^verbatim>\<open>RuntimeError\<close>. Below, the annotation file of item \<open>a\<close> cannot be opened and item
  \<open>b\<close> has a file with two boxes: \<open>a\<close> is reported and evicted, the iteration ends with
  the \<^verbatim>\<open>RuntimeError\<close> and has yielded nothing, although \<open>b\<close> resolves when asked for.
\<close>

theorem iteration_aborts_after_eviction:
  "Subset_iter (sampleX [(''ds/b.txt'', sample_two_boxes)] []) sampleE ''train'' sample_state =
     (([], Some (RuntimeError ''OrderedDict mutated during iteration'')),
      \<lparr>subsets = [(''train'', [(''b'', Placeholder ''b.jpg'')])],
       events =
         [ParserCall ''ds/a.txt'' (''a'', ''train''),
          ReportItemError (OSError ''ds/a.txt'') (''a'', ''train'')]\<rparr>) \<and>
   fst (extractor_get (sampleX [(''ds/b.txt'', sample_two_boxes)] []) sampleE ''b'' ''train''
     sample_state) =
     Inr (Item (''b'', ''train'', \<lparr>img_path = ''ds/b.jpg'', img_size = Some (100, 100)\<rparr>,
       \<lparr>box_x = 50000, box_y = 50000, box_w = 50000, box_h = 50000, box_label = 0,
        box_id = 0, box_group = 0, box_angle = 0\<rparr>))"
  by code_simp

text \<open>An entry that is no file name any more is left alone by every call.\<close>

lemma get_not_pending:
  "\<not> pending s sn i \<Longrightarrow> snd (extractor_get X E i sn s) = s"
  by (auto simp: pending_def entry_of_def extractor_get_def
        split: option.splits entry.splits)

lemma get_resolved:
  "entry_of s sn i = Some (Some (Resolved it)) \<Longrightarrow> extractor_get X E i sn s = (Inr (Item it), s)"
  by (auto simp: entry_of_def extractor_get_def)

lemma get_absent:
  "entry_of s sn i = Some None \<Longrightarrow> extractor_get X E i sn s = (Inl (KeyError i), s)"
  by (auto simp: entry_of_def extractor_get_def)

lemma entry_of_update:
  "map_of (subsets s) sn' = Some items \<Longrightarrow>
   entry_of (s\<lparr>subsets := AList.update sn' items' (subsets s), events := evs\<rparr>) sn i =
     (if sn = sn' then Some (map_of items' i) else entry_of s sn i)"
  by (simp add: entry_of_def update_conv')

text \<open>A call for one item changes the entry of no other.\<close>

lemma get_frame:
  assumes "(j, sn') \<noteq> (i, sn)"
  shows "entry_of (snd (extractor_get X E j sn' s)) sn i = entry_of s sn i"
proof (cases "pending s sn' j")
  case False
  then show ?thesis by (simp add: get_not_pending)
next
  case True
  then obtain items f where items: "map_of (subsets s) sn' = Some items"
    and f: "map_of items j = Some (Placeholder f)"
    by (auto simp: pending_def entry_of_def split: option.splits entry.splits)
  obtain parsed evs where p:
    "parse_annotations X (categories E) (splitext_root (join (root_path E) f) @ ''.txt'')
       \<lparr>img_path = join (root_path E) f, img_size = image_info E j\<rparr> (j, sn') (events s) =
     (parsed, evs)"
    by (cases "parse_annotations X (categories E)
       (splitext_root (join (root_path E) f) @ ''.txt'')
       \<lparr>img_path = join (root_path E) f, img_size = image_info E j\<rparr> (j, sn') (events s)")
  have same: "sn = sn' \<Longrightarrow> i \<noteq> j" using assms by auto
  show ?thesis
    unfolding get_placeholder [OF items f p]
    using items same
    by (auto simp: entry_of_update update_conv' delete_conv' entry_of_def split: sum.splits)
qed

lemma parser_calls_snoc_report:
  "parser_calls k (evs @ [ReportItemError e k']) = parser_calls k evs"
  by (simp add: parser_calls_def)

text \<open>A call for a file name settles its entry, and invokes the parser once.\<close>

lemma get_settles:
  assumes "pending s sn i"
  shows "\<not> pending (snd (extractor_get X E i sn s)) sn i \<and>
         parser_calls (i, sn) (events (snd (extractor_get X E i sn s))) =
           parser_calls (i, sn) (events s) + 1"
proof -
  from assms obtain items f where items: "map_of (subsets s) sn = Some items"
    and f: "map_of items i = Some (Placeholder f)"
    by (auto simp: pending_def entry_of_def split: option.splits entry.splits)
  define img where "img = \<lparr>img_path = join (root_path E) f, img_size = image_info E i\<rparr>"
  define path where "path = splitext_root (join (root_path E) f) @ ''.txt''"
  obtain parsed evs where p:
    "parse_annotations X (categories E) path img (i, sn) (events s) = (parsed, evs)"
    by (cases "parse_annotations X (categories E) path img (i, sn) (events s)")
  have "parser_calls (i, sn) (snd (parse_annotations X (categories E) path img (i, sn) (events s)))
      = parser_calls (i, sn) (events s) + (if (i, sn) = (i, sn) then 1 else 0)"
    by (rule parser_calls_parse_annotations)
  then have calls: "parser_calls (i, sn) evs = parser_calls (i, sn) (events s) + 1"
    by (simp add: p)
  note g = get_placeholder [OF items f p [unfolded img_def path_def], folded img_def]
  show ?thesis
  proof (cases "bind parsed (build_item X i sn img)")
    case (Inl e)
    with g have eq: "extractor_get X E i sn s =
        (Inr Nothing,
         s\<lparr>subsets := AList.update sn (AList.delete i items) (subsets s),
           events := evs @ [ReportItemError e (i, sn)]\<rparr>)"
      by simp
    have "entry_of (s\<lparr>subsets := AList.update sn (AList.delete i items) (subsets s),
           events := evs @ [ReportItemError e (i, sn)]\<rparr>) sn i = Some None"
      using items by (simp add: entry_of_update delete_conv')
    then show ?thesis
      unfolding eq using calls by (simp add: pending_def parser_calls_snoc_report)
  next
    case (Inr it)
    with g have eq: "extractor_get X E i sn s =
        (Inr (Item it),
         s\<lparr>subsets := AList.update sn (AList.update i (Resolved it) items) (subsets s),
           events := evs\<rparr>)"
      by simp
    have "entry_of (s\<lparr>subsets := AList.update sn (AList.update i (Resolved it) items) (subsets s),
           events := evs\<rparr>) sn i = Some (Some (Resolved it))"
      using items by (simp add: entry_of_update update_conv')
    then show ?thesis
      unfolding eq using calls by (simp add: pending_def)
  qed
qed

lemma get_calls_other:
  assumes "(j, sn') \<noteq> (i, sn)"
  shows "parser_calls (i, sn) (events (snd (extractor_get X E j sn' s))) =
         parser_calls (i, sn) (events s)"
proof (cases "pending s sn' j")
  case False
  then show ?thesis by (simp add: get_not_pending)
next
  case True
  then obtain items f where items: "map_of (subsets s) sn' = Some items"
    and f: "map_of items j = Some (Placeholder f)"
    by (auto simp: pending_def entry_of_def split: option.splits entry.splits)
  define img where "img = \<lparr>img_path = join (root_path E) f, img_size = image_info E j\<rparr>"
  define path where "path = splitext_root (join (root_path E) f) @ ''.txt''"
  obtain parsed evs where p:
    "parse_annotations X (categories E) path img (j, sn') (events s) = (parsed, evs)"
    by (cases "parse_annotations X (categories E) path img (j, sn') (events s)")
  have "parser_calls (i, sn) (snd (parse_annotations X (categories E) path img (j, sn') (events s)))
      = parser_calls (i, sn) (events s) + (if (i, sn) = (j, sn') then 1 else 0)"
    by (rule parser_calls_parse_annotations)
  with assms have calls: "parser_calls (i, sn) evs = parser_calls (i, sn) (events s)"
    by (auto simp: p)
  note g = get_placeholder [OF items f p [unfolded img_def path_def], folded img_def]
  show ?thesis
  proof (cases "bind parsed (build_item X j sn' img)")
    case (Inl e)
    with g calls show ?thesis by (simp add: parser_calls_snoc_report)
  next
    case (Inr it)
    with g calls show ?thesis by simp
  qed
qed

lemma get_item_entry:
  assumes "extractor_get X E i sn s = (Inr (Item it), s1)"
  shows "entry_of s1 sn i = Some (Some (Resolved it))"
proof (cases "pending s sn i")
  case False
  with assms show ?thesis
    by (auto simp: pending_def entry_of_def extractor_get_def split: option.splits entry.splits)
next
  case True
  then obtain items f where items: "map_of (subsets s) sn = Some items"
    and f: "map_of items i = Some (Placeholder f)"
    by (auto simp: pending_def entry_of_def split: option.splits entry.splits)
  define img where "img = \<lparr>img_path = join (root_path E) f, img_size = image_info E i\<rparr>"
  define path where "path = splitext_root (join (root_path E) f) @ ''.txt''"
  obtain parsed evs where p:
    "parse_annotations X (categories E) path img (i, sn) (events s) = (parsed, evs)"
    by (cases "parse_annotations X (categories E) path img (i, sn) (events s)")
  note g = get_placeholder [OF items f p [unfolded img_def path_def], folded img_def]
  show ?thesis
  proof (cases "bind parsed (build_item X i sn img)")
    case (Inl e)
    with g assms show ?thesis by simp
  next
    case (Inr it')
    with g assms have "it' = it" and
      "s1 = s\<lparr>subsets := AList.update sn (AList.update i (Resolved it') items) (subsets s),
           events := evs\<rparr>"
      by simp_all
    then show ?thesis using items by (simp add: entry_of_update update_conv')
  qed
qed

lemma get_nothing_entry:
  assumes "extractor_get X E i sn s = (Inr Nothing, s1)"
  shows "entry_of s1 sn i = Some None"
proof (cases "pending s sn i")
  case False
  with assms show ?thesis
    by (auto simp: pending_def entry_of_def extractor_get_def split: option.splits entry.splits)
next
  case True
  then obtain items f where items: "map_of (subsets s) sn = Some items"
    and f: "map_of items i = Some (Placeholder f)"
    by (auto simp: pending_def entry_of_def split: option.splits entry.splits)
  define img where "img = \<lparr>img_path = join (root_path E) f, img_size = image_info E i\<rparr>"
  define path where "path = splitext_root (join (root_path E) f) @ ''.txt''"
  obtain parsed evs where p:
    "parse_annotations X (categories E) path img (i, sn) (events s) = (parsed, evs)"
    by (cases "parse_annotations X (categories E) path img (i, sn) (events s)")
  note g = get_placeholder [OF items f p [unfolded img_def path_def], folded img_def]
  show ?thesis
  proof (cases "bind parsed (build_item X i sn img)")
    case (Inl e)
    with g assms have
      "s1 = s\<lparr>subsets := AList.update sn (AList.delete i items) (subsets s),
           events := evs @ [ReportItemError e (i, sn)]\<rparr>"
      by simp
    then show ?thesis using items by (simp add: entry_of_update delete_conv')
  next
    case (Inr it')
    with g assms show ?thesis by simp
  qed
qed

lemma gets_settled:
  assumes "\<not> pending s sn i"
  shows "entry_of (gets X E calls s) sn i = entry_of s sn i \<and>
         parser_calls (i, sn) (events (gets X E calls s)) = parser_calls (i, sn) (events s)"
  using assms
proof (induction calls arbitrary: s)
  case Nil
  then show ?case by simp
next
  case (Cons c calls)
  obtain j sn' where c: "c = (j, sn')" by (cases c)
  show ?case
  proof (cases "(j, sn') = (i, sn)")
    case True
    with Cons.prems have "snd (extractor_get X E j sn' s) = s"
      by (simp add: get_not_pending)
    with Cons c show ?thesis by simp
  next
    case False
    let ?s' = "snd (extractor_get X E j sn' s)"
    from False have e: "entry_of ?s' sn i = entry_of s sn i" by (rule get_frame)
    with Cons.prems have "\<not> pending ?s' sn i" by (simp add: pending_def)
    from Cons.IH [OF this] e get_calls_other [OF False, of X E s] c
    show ?thesis by simp
  qed
qed

lemma gets_calls_bound:
  "parser_calls (i, sn) (events (gets X E calls s)) \<le> parser_calls (i, sn) (events s) + 1"
proof (induction calls arbitrary: s)
  case Nil
  then show ?case by simp
next
  case (Cons c calls)
  obtain j sn' where c: "c = (j, sn')" by (cases c)
  let ?s' = "snd (extractor_get X E j sn' s)"
  show ?case
  proof (cases "(j, sn') = (i, sn)")
    case False
    from Cons.IH [of ?s'] get_calls_other [OF False, of X E s] c
    show ?thesis by simp
  next
    case True
    show ?thesis
    proof (cases "pending s sn i")
      case False
      then show ?thesis using gets_settled [of s sn i X E "c # calls"] by simp
    next
      case pend: True
      from get_settles [OF pend, of X E] gets_settled [of "snd (extractor_get X E i sn s)" sn i X E calls]
      show ?thesis using True c by simp
    qed
  qed
qed

text \<open>
  C3, as amended. Whatever calls of \<^verbatim>\<open>_get\<close> are made, the parser is invoked for an
  item at most once more than before them. Once \<^verbatim>\<open>_get\<close> has returned an item, then
  after any further calls it returns that same item and changes nothing, so the parser
  is not invoked. Once it has returned \<^verbatim>\<open>None\<close>, the entry is gone: after any further
  calls \<^verbatim>\<open>_get\<close> raises \<^verbatim>\<open>KeyError\<close> for the id and changes nothing, so resolution is
  not tried again.
\<close>

theorem resolution_at_most_once:
  "parser_calls (i, sn) (events (gets X E calls s)) \<le> parser_calls (i, sn) (events s) + 1 \<and>
   (extractor_get X E i sn s = (Inr (Item it), s1) \<longrightarrow>
      extractor_get X E i sn (gets X E calls s1) = (Inr (Item it), gets X E calls s1)) \<and>
   (extractor_get X E i sn s = (Inr Nothing, s1) \<longrightarrow>
      extractor_get X E i sn (gets X E calls s1) = (Inl (KeyError i), gets X E calls s1))"
proof (intro conjI impI)
  show "parser_calls (i, sn) (events (gets X E calls s)) \<le> parser_calls (i, sn) (events s) + 1"
    by (rule gets_calls_bound)
next
  assume "extractor_get X E i sn s = (Inr (Item it), s1)"
  then have e: "entry_of s1 sn i = Some (Some (Resolved it))" by (rule get_item_entry)
  then have "\<not> pending s1 sn i" by (simp add: pending_def)
  from gets_settled [OF this, of X E calls] e
  have "entry_of (gets X E calls s1) sn i = Some (Some (Resolved it))" by simp
  then show "extractor_get X E i sn (gets X E calls s1) = (Inr (Item it), gets X E calls s1)"
    by (rule get_resolved)
next
  assume "extractor_get X E i sn s = (Inr Nothing, s1)"
  then have e: "entry_of s1 sn i = Some None" by (rule get_nothing_entry)
  then have "\<not> pending s1 sn i" by (simp add: pending_def)
  from gets_settled [OF this, of X E calls] e
  have "entry_of (gets X E calls s1) sn i = Some None" by simp
  then show "extractor_get X E i sn (gets X E calls s1) = (Inl (KeyError i), gets X E calls s1)"
    by (rule get_absent)
qed

theorem resolution_at_most_once_witness:
  "extractor_get (sampleX [(''ds/b.txt'', sample_two_boxes)] []) sampleE ''b'' ''train''
     sample_state =
     (Inr (Item (''b'', ''train'', \<lparr>img_path = ''ds/b.jpg'', img_size = Some (100, 100)\<rparr>,
        \<lparr>box_x = 50000, box_y = 50000, box_w = 50000, box_h = 50000, box_label = 0,
         box_id = 0, box_group = 0, box_angle = 0\<rparr>)),
      snd (extractor_get (sampleX [(''ds/b.txt'', sample_two_boxes)] []) sampleE ''b'' ''train''
        sample_state)) \<and>
   extractor_get (sampleX [(''ds/b.txt'', sample_two_boxes)] []) sampleE ''b'' ''train''
     (gets (sampleX [(''ds/b.txt'', sample_two_boxes)] []) sampleE
        [(''a'', ''train''), (''b'', ''train''), (''a'', ''train'')]
        (snd (extractor_get (sampleX [(''ds/b.txt'', sample_two_boxes)] []) sampleE ''b'' ''train''
           sample_state))) =
     (Inr (Item (''b'', ''train'', \<lparr>img_path = ''ds/b.jpg'', img_size = Some (100, 100)\<rparr>,
        \<lparr>box_x = 50000, box_y = 50000, box_w = 50000, box_h = 50000, box_label = 0,
         box_id = 0, box_group = 0, box_angle = 0\<rparr>)),
      gets (sampleX [(''ds/b.txt'', sample_two_boxes)] []) sampleE
        [(''a'', ''train''), (''b'', ''train''), (''a'', ''train'')]
        (snd (extractor_get (sampleX [(''ds/b.txt'', sample_two_boxes)] []) sampleE ''b'' ''train''
           sample_state))) \<and>
   fst (extractor_get (sampleX [(''ds/b.txt'', sample_two_boxes)] []) sampleE ''a'' ''train''
     sample_state) = Inr Nothing \<and>
   extractor_get (sampleX [(''ds/b.txt'', sample_two_boxes)] []) sampleE ''a'' ''train''
     (gets (sampleX [(''ds/b.txt'', sample_two_boxes)] []) sampleE
        [(''b'', ''train''), (''a'', ''train'')]
        (snd (extractor_get (sampleX [(''ds/b.txt'', sample_two_boxes)] []) sampleE ''a'' ''train''
           sample_state))) =
     (Inl (KeyError ''a''),
      gets (sampleX [(''ds/b.txt'', sample_two_boxes)] []) sampleE
        [(''b'', ''train''), (''a'', ''train'')]
        (snd (extractor_get (sampleX [(''ds/b.txt'', sample_two_boxes)] []) sampleE ''a'' ''train''
           sample_state))) \<and>
   parser_calls (''b'', ''train'')
     (events (gets (sampleX [(''ds/b.txt'', sample_two_boxes)] []) sampleE
        [(''b'', ''train''), (''a'', ''train''), (''b'', ''train''), (''b'', ''train'')]
        sample_state)) \<le> 1"
proof -
  let ?X = "sampleX [(''ds/b.txt'', sample_two_boxes)] []"
  let ?it = "(''b'', ''train'', \<lparr>img_path = ''ds/b.jpg'', img_size = Some (100, 100)\<rparr>,
        \<lparr>box_x = 50000 :: int, box_y = 50000, box_w = 50000, box_h = 50000, box_label = 0,
         box_id = 0, box_group = 0, box_angle = 0\<rparr>)"
  have fb: "fst (extractor_get ?X sampleE ''b'' ''train'' sample_state) = Inr (Item ?it)"
    by code_simp
  then have hb: "extractor_get ?X sampleE ''b'' ''train'' sample_state =
      (Inr (Item ?it), snd (extractor_get ?X sampleE ''b'' ''train'' sample_state))"
    by (simp add: prod_eq_iff)
  have fa: "fst (extractor_get ?X sampleE ''a'' ''train'' sample_state) = Inr Nothing"
    by code_simp
  then have ha: "extractor_get ?X sampleE ''a'' ''train'' sample_state =
      (Inr Nothing, snd (extractor_get ?X sampleE ''a'' ''train'' sample_state))"
    by (simp add: prod_eq_iff)
  have e0: "parser_calls (''b'', ''train'') (events sample_state) = 0"
    by code_simp
  note tb = resolution_at_most_once
    [where X = ?X and E = sampleE and i = "''b''" and sn = "''train''" and s = sample_state
       and it = ?it
       and ?s1.0 = "snd (extractor_get ?X sampleE ''b'' ''train'' sample_state)"
       and calls = "[(''a'', ''train''), (''b'', ''train''), (''a'', ''train'')]"]
  note ta = resolution_at_most_once
    [where X = ?X and E = sampleE and i = "''a''" and sn = "''train''" and s = sample_state
       and ?s1.0 = "snd (extractor_get ?X sampleE ''a'' ''train'' sample_state)"
       and calls = "[(''b'', ''train''), (''a'', ''train'')]"]
  note tc = resolution_at_most_once
    [where X = ?X and E = sampleE and i = "''b''" and sn = "''train''" and s = sample_state
       and calls = "[(''b'', ''train''), (''a'', ''train''), (''b'', ''train''), (''b'', ''train'')]"]
  from tb hb have 1: "extractor_get ?X sampleE ''b'' ''train''
     (gets ?X sampleE [(''a'', ''train''), (''b'', ''train''), (''a'', ''train'')]
        (snd (extractor_get ?X sampleE ''b'' ''train'' sample_state))) =
     (Inr (Item ?it),
      gets ?X sampleE [(''a'', ''train''), (''b'', ''train''), (''a'', ''train'')]
        (snd (extractor_get ?X sampleE ''b'' ''train'' sample_state)))"
    by blast
  from ta ha have 2: "extractor_get ?X sampleE ''a'' ''train''
     (gets ?X sampleE [(''b'', ''train''), (''a'', ''train'')]
        (snd (extractor_get ?X sampleE ''a'' ''train'' sample_state))) =
     (Inl (KeyError ''a''),
      gets ?X sampleE [(''b'', ''train''), (''a'', ''train'')]
        (snd (extractor_get ?X sampleE ''a'' ''train'' sample_state)))"
    by blast
  from tc e0 have 3: "parser_calls (''b'', ''train'')
     (events (gets ?X sampleE
        [(''b'', ''train''), (''a'', ''train''), (''b'', ''train''), (''b'', ''train'')]
        sample_state)) \<le> 1"
    by simp
  from hb 1 fa 2 3 show ?thesis by blast
qed

text \<open>
  C3 as stated fails: after the failed resolution of item \<open>a\<close> (its annotation file
  cannot be opened), the next \<^verbatim>\<open>_get\<close> of \<open>a\<close> does not return \<^verbatim>\<open>None\<close>; the
  subscript of line 160 raises \<^verbatim>\<open>KeyError\<close>.
\<close>

theorem get_after_eviction_raises:
  "fst (extractor_get (sampleX [(''ds/b.txt'', sample_two_boxes)] []) sampleE ''a'' ''train''
     sample_state) = Inr Nothing \<and>
   fst (extractor_get (sampleX [(''ds/b.txt'', sample_two_boxes)] []) sampleE ''a'' ''train''
     (snd (extractor_get (sampleX [(''ds/b.txt'', sample_two_boxes)] []) sampleE ''a'' ''train''
        sample_state))) = Inl (KeyError ''a'') \<and>
   fst (extractor_get (sampleX [(''ds/b.txt'', sample_two_boxes)] []) sampleE ''a'' ''train''
     (snd (extractor_get (sampleX [(''ds/b.txt'', sample_two_boxes)] []) sampleE ''a'' ''train''
        sample_state))) \<noteq> Inr Nothing"
  by code_simp

section \<open>Properties of the category loader\<close>

lemma foldl_LabelCategories_add: "foldl LabelCategories_add acc names = acc @ names"
  by (induction names arbitrary: acc) (simp_all add: LabelCategories_add_def)

lemma init_propagates:
  assumes "load_categories X (join config (META_FILE X)) = Inl e"
  shows "(\<exists>e'. init X config info urls = Inl e') \<and>
         (isdir X config \<and> urls \<noteq> [] \<and> (\<exists>d. parse_image_info X config info = Inr d) \<longrightarrow>
            init X config info urls = Inl e)"
  using assms by (cases "parse_image_info X config info") (auto simp: init_def bind_def)

text \<open>
  C7. Where there is no dataset meta file and the category file loads with a value
  under "names": a list gives the label names in list order, so a label's id is its
  position in the list; a mapping gives its values in the mapping's order; any other
  value raises \<^verbatim>\<open>DatasetImportError\<close>, which \<^verbatim>\<open>__init__\<close> does not handle, so that
  no extractor is built.
\<close>

theorem load_categories_names:
  assumes "\<not> has_meta_file X (dirname p)" and "yaml_docs X p = Some (Inr loaded)"
    and "getitem loaded ''names'' = Inr names"
  shows "(names = YList xs \<longrightarrow> load_categories X p = Inr xs) \<and>
         (names = YDict kvs \<longrightarrow> load_categories X p = Inr (map snd kvs)) \<and>
         ((\<forall>ys. names \<noteq> YList ys) \<and> (\<forall>ps. names \<noteq> YDict ps) \<longrightarrow>
            load_categories X p = Inl (DatasetImportError p) \<and>
            (p = join config (META_FILE X) \<longrightarrow>
               (\<exists>e. init X config info urls = Inl e) \<and>
               (isdir X config \<and> urls \<noteq> [] \<and> (\<exists>d. parse_image_info X config info = Inr d) \<longrightarrow>
                  init X config info urls = Inl (DatasetImportError p))))"
proof (intro conjI impI)
  assume "names = YList xs"
  with assms show "load_categories X p = Inr xs"
    by (simp add: load_categories_def bind_def foldl_LabelCategories_add)
next
  assume "names = YDict kvs"
  with assms show "load_categories X p = Inr (map snd kvs)"
    by (simp add: load_categories_def bind_def foldl_LabelCategories_add)
next
  assume other: "(\<forall>ys. names \<noteq> YList ys) \<and> (\<forall>ps. names \<noteq> YDict ps)"
  with assms show err: "load_categories X p = Inl (DatasetImportError p)"
    by (cases names) (simp_all add: load_categories_def bind_def)
  {
    assume p: "p = join config (META_FILE X)"
    from err p init_propagates [of X config "DatasetImportError p" info urls]
    show "\<exists>e. init X config info urls = Inl e" by simp
    assume "isdir X config \<and> urls \<noteq> [] \<and> (\<exists>d. parse_image_info X config info = Inr d)"
    with err p init_propagates [of X config "DatasetImportError p" info urls]
    show "init X config info urls = Inl (DatasetImportError p)" by simp
  }
qed

theorem load_categories_names_witness:
  "load_categories
     (sampleX [] [(''ds/data.yaml'',
        YDict [(YStr ''names'', YList [YStr ''a'', YStr ''b'', YStr ''c''])])])
     ''ds/data.yaml'' = Inr [YStr ''a'', YStr ''b'', YStr ''c''] \<and>
   load_categories
     (sampleX [] [(''ds/data.yaml'',
        YDict [(YStr ''names'', YDict [(YInt 1, YStr ''b''), (YInt 0, YStr ''a'')])])])
     ''ds/data.yaml'' = Inr [YStr ''b'', YStr ''a''] \<and>
   load_categories
     (sampleX [] [(''ds/data.yaml'', YDict [(YStr ''names'', YStr ''a, b, c'')])])
     ''ds/data.yaml'' = Inl (DatasetImportError ''ds/data.yaml'') \<and>
   init (sampleX [] [(''ds/data.yaml'', YDict [(YStr ''names'', YStr ''a, b, c'')])])
     ''ds'' InfoNone [''train.txt''] = Inl (DatasetImportError ''ds/data.yaml'')"
proof -
  let ?X1 = "sampleX [] [(''ds/data.yaml'',
        YDict [(YStr ''names'', YList [YStr ''a'', YStr ''b'', YStr ''c''])])]"
  let ?X2 = "sampleX [] [(''ds/data.yaml'',
        YDict [(YStr ''names'', YDict [(YInt 1, YStr ''b''), (YInt 0, YStr ''a'')])])]"
  let ?X3 = "sampleX [] [(''ds/data.yaml'', YDict [(YStr ''names'', YStr ''a, b, c'')])]"
  have a1: "\<not> has_meta_file ?X1 (dirname ''ds/data.yaml'')"
    and b1: "yaml_docs ?X1 ''ds/data.yaml'' =
      Some (Inr (YDict [(YStr ''names'', YList [YStr ''a'', YStr ''b'', YStr ''c''])]))"
    and c1: "getitem (YDict [(YStr ''names'', YList [YStr ''a'', YStr ''b'', YStr ''c''])])
      ''names'' = Inr (YList [YStr ''a'', YStr ''b'', YStr ''c''])"
    by code_simp+
  have a2: "\<not> has_meta_file ?X2 (dirname ''ds/data.yaml'')"
    and b2: "yaml_docs ?X2 ''ds/data.yaml'' =
      Some (Inr (YDict [(YStr ''names'', YDict [(YInt 1, YStr ''b''), (YInt 0, YStr ''a'')])]))"
    and c2: "getitem (YDict [(YStr ''names'', YDict [(YInt 1, YStr ''b''), (YInt 0, YStr ''a'')])])
      ''names'' = Inr (YDict [(YInt 1, YStr ''b''), (YInt 0, YStr ''a'')])"
    by code_simp+
  have a3: "\<not> has_meta_file ?X3 (dirname ''ds/data.yaml'')"
    and b3: "yaml_docs ?X3 ''ds/data.yaml'' =
      Some (Inr (YDict [(YStr ''names'', YStr ''a, b, c'')]))"
    and c3: "getitem (YDict [(YStr ''names'', YStr ''a, b, c'')]) ''names'' = Inr (YStr ''a, b, c'')"
    by code_simp+
  have d3: "''ds/data.yaml'' = join ''ds'' (META_FILE ?X3)"
    and e3: "isdir ?X3 ''ds'' \<and> [''train.txt''] \<noteq> [] \<and>
      (\<exists>d. parse_image_info ?X3 ''ds'' InfoNone = Inr d)"
    by (simp_all add: sampleX_def join_def parse_image_info_def)
  from load_categories_names [OF a1 b1 c1, of "[YStr ''a'', YStr ''b'', YStr ''c'']"]
  have 1: "load_categories ?X1 ''ds/data.yaml'' = Inr [YStr ''a'', YStr ''b'', YStr ''c'']"
    by simp
  from load_categories_names [OF a2 b2 c2, of _ "[(YInt 1, YStr ''b''), (YInt 0, YStr ''a'')]"]
  have 2: "load_categories ?X2 ''ds/data.yaml'' = Inr [YStr ''b'', YStr ''a'']"
    by simp
  from load_categories_names [OF a3 b3 c3, of _ _ "''ds''" InfoNone "[''train.txt'']"] d3 e3
  have 3: "load_categories ?X3 ''ds/data.yaml'' = Inl (DatasetImportError ''ds/data.yaml'')"
    and 4: "init ?X3 ''ds'' InfoNone [''train.txt''] = Inl (DatasetImportError ''ds/data.yaml'')"
    by simp_all
  from 1 2 3 4 show ?thesis by simp
qed

end
